theory Spec2Isabelle
  imports Main
begin

section \<open>JavaScript strings and arrays\<close>

text \<open>
  \<open>String.prototype.split\<close> with a one-character separator: the pieces between the
  separators, so a string with \<open>k\<close> separators gives \<open>k + 1\<close> pieces and the empty
  string gives one empty piece.
\<close>

fun split :: "char \<Rightarrow> string \<Rightarrow> string list" where
  "split sep [] = [[]]"
| "split sep (c # cs) =
     (if c = sep then [] # split sep cs
      else (case split sep cs of
              [] \<Rightarrow> [[c]]
            | piece # pieces \<Rightarrow> (c # piece) # pieces))"

text \<open>
  \<open>String.prototype.replace\<close> with a pattern that is a fixed text without the global
  flag, as \<open>/Controller/\<close> is: the leftmost occurrence is replaced, wherever it is.
\<close>

fun replace :: "string \<Rightarrow> string \<Rightarrow> string \<Rightarrow> string" where
  "replace pat rep [] = (if pat = [] then rep else [])"
| "replace pat rep (c # cs) =
     (if take (length pat) (c # cs) = pat then rep @ drop (length pat) (c # cs)
      else c # replace pat rep cs)"

text \<open>\<open>String.prototype.toUpperCase\<close> on ASCII text.\<close>

definition toUpperCase_char :: "char \<Rightarrow> char" where
  "toUpperCase_char c =
     (let n = (of_char c :: nat) in if 97 \<le> n \<and> n \<le> 122 then char_of (n - 32) else c)"

definition toUpperCase :: "string \<Rightarrow> string" where
  "toUpperCase s = map toUpperCase_char s"

text \<open>
  An array inside a template literal is printed by \<open>Array.prototype.toString\<close>: its
  elements joined by commas.
\<close>

fun array_toString :: "string list \<Rightarrow> string" where
  "array_toString [] = []"
| "array_toString [x] = x"
| "array_toString (x # y # ys) = x @ '','' @ array_toString (y # ys)"

definition array_includes :: "'a list \<Rightarrow> 'a \<Rightarrow> bool" where
  "array_includes xs x = (x \<in> set xs)"

section \<open>The helpers of \<open>fp\<close>\<close>

text \<open>
  Modelled from the spec: \<open>rejectFalsy\<close> of \<open>../fp\<close> is not part of the sources. It
  keeps the elements of an array that JavaScript counts as true, which is how the spec
  reads each of its uses (a part is present "if any" or "only when at least one such
  name exists"). An array element that may be falsy is an \<open>option\<close> here, \<open>None\<close>
  standing for the falsy value.
\<close>

fun rejectFalsy :: "'a option list \<Rightarrow> 'a list" where
  "rejectFalsy [] = []"
| "rejectFalsy (None # xs) = rejectFalsy xs"
| "rejectFalsy (Some x # xs) = x # rejectFalsy xs"

text \<open>A string or \<open>undefined\<close> as an array element: the empty string is falsy too.\<close>

definition falsy_string :: "string option \<Rightarrow> string option" where
  "falsy_string v = (case v of None \<Rightarrow> None | Some s \<Rightarrow> if s = [] then None else Some s)"

text \<open>
  Modelled from the spec: \<open>groupBy\<close> of \<open>../fp\<close> is not part of the sources. It groups
  "the declared Parameters by transport location into a mapping from location to ordered
  list of Parameters, preserving declaration order within each group"; a location no
  parameter has is not a key of the mapping.
\<close>

definition groupBy :: "('a \<Rightarrow> 'k) \<Rightarrow> 'a list \<Rightarrow> 'k \<Rightarrow> 'a list option" where
  "groupBy f xs k = (let g = filter (\<lambda>x. f x = k) xs in if g = [] then None else Some g)"

text \<open>
  A JavaScript object is the list of its properties in the order in which the language
  enumerates them: no key twice, first the keys that are array indices (a decimal
  numeral without a leading zero, below \<open>2^32 - 1\<close>) by ascending value, then the
  other keys in the order in which they were created. Setting a property that is there
  replaces its value where it stands; setting a new one puts it at its place in that
  order.
\<close>

definition digit :: "char \<Rightarrow> bool" where
  "digit c = (let n = (of_char c :: nat) in 48 \<le> n \<and> n \<le> 57)"

definition index_value :: "string \<Rightarrow> int" where
  "index_value s = fold (\<lambda>c n. 10 * n + (of_char c - 48)) s 0"

definition array_index :: "string \<Rightarrow> bool" where
  "array_index s =
     (s \<noteq> [] \<and> list_all digit s \<and> (length s = 1 \<or> hd s \<noteq> CHR ''0'')
      \<and> index_value s < 4294967295)"

definition index_before :: "string \<Rightarrow> string \<times> 'v \<Rightarrow> bool" where
  "index_before k e = (array_index (fst e) \<and> index_value (fst e) < index_value k)"

definition set_property :: "(string \<times> 'v) list \<Rightarrow> string \<Rightarrow> 'v \<Rightarrow> (string \<times> 'v) list" where
  "set_property obj k v =
     (if k \<in> set (map fst obj) then map (\<lambda>e. if fst e = k then (k, v) else e) obj
      else if array_index k
      then takeWhile (index_before k) obj @ (k, v) # dropWhile (index_before k) obj
      else obj @ [(k, v)])"

text \<open>
  Modelled from the spec: \<open>listToObject\<close> of \<open>../fp\<close> is not part of the sources. It
  gives "an object built from every query-location parameter, mapping its name to a
  property access": the JavaScript object on which the pair that the callback gives for
  each element is set, in the order of the list. \<open>Writers.object\<close> is handed that
  object.
\<close>

definition listToObject :: "'a list \<Rightarrow> ('a \<Rightarrow> string \<times> 'v) \<Rightarrow> (string \<times> 'v) list" where
  "listToObject xs f = fold (\<lambda>x obj. set_property obj (fst (f x)) (snd (f x))) xs []"

text \<open>
  \<open>keys\<close> and \<open>entries\<close> of \<open>../fp\<close> read an object in the order of its properties. An
  object is the list of its entries in that order, and a property read is a lookup.
\<close>

definition keys :: "('k \<times> 'v) list \<Rightarrow> 'k list" where
  "keys obj = map fst obj"

definition entries :: "('k \<times> 'v) list \<Rightarrow> ('k \<times> 'v) list" where
  "entries obj = obj"

section \<open>The API description\<close>

text \<open>
  The declarations of \<open>../openapi\<close> are not part of the sources. A schema is a value of
  the type \<open>'s\<close>, the \<open>type\<close> of a parameter's schema a value of \<open>'t\<close>, and the parts
  of an operation that only \<open>extractContentSchema\<close> and \<open>extractResponseType\<close> read
  are a value of \<open>'x\<close>.
\<close>

record 't parameter =
  p_name :: string
  p_in :: string
  p_schema_type :: 't
  p_required :: bool

record ('t, 'x) operation =
  operationId :: "string option"
  parameters :: "'t parameter list"
  op_content :: 'x

type_synonym ('t, 'x) path_item = "(string \<times> ('t, 'x) operation) list"

type_synonym ('t, 'x) paths = "(string \<times> ('t, 'x) path_item) list"

text \<open>
  What \<open>extractContentSchema\<close> and \<open>extractResponseType\<close> return when they find a
  schema, with the fields the generator reads. The \<open>imports\<close> of the first and the
  \<open>typeName\<close> of the second are a text or \<open>undefined\<close>.
\<close>

record 's body_params =
  contentName :: string
  bp_schema :: 's
  bp_required :: bool
  bp_imports :: "string option"

record 's return_type =
  rt_schema :: 's
  typeName :: "string option"

section \<open>The generated artifacts\<close>

text \<open>
  The writers of \<open>../writers\<close>, \<open>sanitizeType\<close> and the \<open>Writers\<close> of the code emitter
  build pieces of program text. They are kept as the calls that were made, as data.
\<close>

datatype ('s, 't) type_writer =
    openAPISpecTreeSpecWriter 's
  | literalWriter string
  | sanitizeType 't

record ('s, 't) property_signature =
  ps_name :: string
  ps_type :: "('s, 't) type_writer"
  hasQuestionToken :: bool

text \<open>A parameter of a method; its type is \<open>Writers.objectType\<close> of the properties.\<close>

record ('s, 't) parameter_decl =
  pd_name :: string
  objectType :: "('s, 't) property_signature list"

text \<open>
  A value of \<open>Writers.object\<close>: a piece of text, or again an object, the list of its
  entries.
\<close>

datatype writer_value =
    Text string
  | Object "(string \<times> writer_value) list"

record ('s, 't) call =
  callName :: string
  parametricType :: "('s, 't) type_writer"
  params :: "writer_value list"

datatype ('s, 't) statement =
    destructWriter bool string "string list"
  | newLine
  | returnStatement "('s, 't) call"

record ('s, 't) method_decl =
  m_name :: string
  m_parameters :: "('s, 't) parameter_decl list"
  m_statements :: "('s, 't) statement list"

datatype scope = Private | Protected | Public

record ctor_parameter =
  cp_name :: string
  cp_type :: string
  cp_scope :: scope

text \<open>
  A class of a source file, as the emitter has it after it parsed the text of the class,
  which it prints with the name it was given: the name it reads back, if it reads one, and
  whether it reads a body, into which a method can be put.
\<close>

record ('s, 't) class_decl =
  c_name :: "string option"
  c_body :: bool
  isExported :: bool
  ctors :: "ctor_parameter list list"
  methods :: "('s, 't) method_decl list"

text \<open>
  A source file of the project: its path, the statements it was created with, the named
  imports registered in it as (module, name) pairs, and its classes.
\<close>

record ('s, 't) source_file =
  sf_path :: string
  sf_statements :: "string list"
  namedImports :: "(string \<times> string) list"
  classes :: "('s, 't) class_decl list"

text \<open>
  The project is the store of the source files. A source file is referred to by its
  position in the store and a class by its position in its file, so two references are
  the same object exactly when they are equal.
\<close>

type_synonym ('s, 't) project = "('s, 't) source_file list"

type_synonym class_ref = "nat \<times> nat"

text \<open>
  What can be thrown: the \<open>Error\<close> of \<open>generateServices\<close> with its message, the
  error of the emitter's \<open>getTypeAliasOrThrow\<close> with the name it did not find, the
  error that the emitter raises when a text it printed does not parse as what it was to
  add (its \<open>ManipulationError\<close>) or when a class has no body for a method, and the
  \<open>TypeError\<close> of a property read on \<open>undefined\<close>.
\<close>

datatype error =
    Error string
  | TypeAliasNotFound string
  | EmitterError
  | TypeError

section \<open>The code emitter\<close>

text \<open>
  The emitter is the library \<open>ts-morph\<close>. Of a project it is used to look a source file
  up by its path and to create one; of a source file, to look a class up by its name and
  to add one; of a class, to add a method. A lookup gives the first file of that path, or
  the first class of that name, and nothing when there is none; what is created is put
  after what is there.

  The emitter prints a class or a method as text, with the names as they were given to
  it, and parses the text. Its printer and parser are not part of the sources, so what
  they make of a text is a parameter. \<open>class_text n\<close> is what comes of the text of
  the class that \<open>getOrCreateServiceClass\<close> adds under the name \<open>n\<close>: \<open>None\<close>
  when the text gives no class, and then \<open>addClass\<close> raises an error; otherwise the
  name that is read back (\<open>None\<close> for a class without a name) and whether the class
  has a body, in which its constructor is. \<open>method_text m\<close> says whether the text of the method \<open>m\<close> parses as
  one method. \<open>addMethod\<close> raises an error when it does not, and when the class has no
  body. With an error the project is returned as it was before the call that raised it.

  The position of the first element of a list with a property:
\<close>

fun find_index :: "('a \<Rightarrow> bool) \<Rightarrow> 'a list \<Rightarrow> nat option" where
  "find_index P [] = None"
| "find_index P (x # xs) = (if P x then Some 0 else map_option Suc (find_index P xs))"

definition getSourceFile :: "('s, 't) project \<Rightarrow> string \<Rightarrow> nat option" where
  "getSourceFile project filePath = find_index (\<lambda>f. sf_path f = filePath) project"

definition createSourceFile ::
  "('s, 't) project \<Rightarrow> string \<Rightarrow> string list \<Rightarrow> nat \<times> ('s, 't) project" where
  "createSourceFile project filePath stmts =
     (length project,
      project @ [\<lparr>sf_path = filePath, sf_statements = stmts, namedImports = [], classes = []\<rparr>])"

record ('s, 't) emitter =
  class_text :: "string \<Rightarrow> (string option \<times> bool) option"
  method_text :: "('s, 't) method_decl \<Rightarrow> bool"

definition getClass :: "('s, 't) source_file \<Rightarrow> string \<Rightarrow> nat option" where
  "getClass file cname = find_index (\<lambda>c. c_name c = Some cname) (classes file)"

definition addClass ::
  "('s, 't) emitter \<Rightarrow> nat \<Rightarrow> string \<Rightarrow> bool \<Rightarrow> ctor_parameter list list \<Rightarrow> ('s, 't) project \<Rightarrow>
   error + class_ref \<times> ('s, 't) project" where
  "addClass e file cname exported cs project =
     (case class_text e cname of
        None \<Rightarrow> Inl EmitterError
      | Some (read, body) \<Rightarrow>
          Inr ((file, length (classes (project ! file))),
               project[file := (project ! file)
                 \<lparr>classes := classes (project ! file)
                    @ [\<lparr>c_name = read, c_body = body, isExported = exported,
                        ctors = (if body then cs else []), methods = []\<rparr>]\<rparr>]))"

definition addMethod ::
  "('s, 't) emitter \<Rightarrow> class_ref \<Rightarrow> ('s, 't) method_decl \<Rightarrow> ('s, 't) project \<Rightarrow>
   error + ('s, 't) project" where
  "addMethod e r m project =
     (let file = project ! fst r; c = classes file ! snd r
      in if c_body c \<and> method_text e m
         then Inr (project[fst r := file
                     \<lparr>classes := (classes file)[snd r := c\<lparr>methods := methods c @ [m]\<rparr>]\<rparr>])
         else Inl EmitterError)"

text \<open>
  The file of the shared utilities: the names of its type aliases.
  \<open>getTypeAliasOrThrow(name).getName()\<close> is the name when the file declares the alias,
  and throws when it does not.
\<close>

record utils_file =
  typeAliases :: "string list"

definition getTypeAliasOrThrow :: "utils_file \<Rightarrow> string \<Rightarrow> error + string" where
  "getTypeAliasOrThrow file alias =
     (if array_includes (typeAliases file) alias then Inr alias else Inl (TypeAliasNotFound alias))"

section \<open>The helpers of \<open>utils\<close> and of the platform\<close>

text \<open>
  \<open>extractContentSchema\<close>, \<open>extractResponseType\<close>, \<open>includeOrCreateNamedImport\<close>,
  \<open>pathArgsToTemplate\<close> and \<open>printStringTemplate\<close> of \<open>../utils\<close> are not part of the
  sources, \<open>path.join\<close> is the platform's, and the printer and parser are the
  emitter's. The generator takes them as parameters, so what is proved of it holds
  whatever they compute. \<open>includeOrCreateNamedImport\<close> is given
  the module to import from, the names, and the named imports of the file it works on, and
  returns the new named imports of that file.
\<close>

record ('s, 't, 'x) helpers =
  extractContentSchema :: "string \<Rightarrow> ('t, 'x) operation \<Rightarrow> 's body_params option"
  extractResponseType :: "('t, 'x) operation \<Rightarrow> 's return_type option"
  includeOrCreateNamedImport ::
    "string \<Rightarrow> string list \<Rightarrow> (string \<times> string) list \<Rightarrow> (string \<times> string) list"
  pathArgsToTemplate :: "string \<Rightarrow> string"
  printStringTemplate :: "string \<Rightarrow> writer_value"
  path_join :: "string list \<Rightarrow> string"
  ts_morph :: "('s, 't) emitter"

section \<open>The generator of the services\<close>

definition knownOperations :: "string list" where
  "knownOperations = [''post'', ''get'', ''patch'', ''delete'', ''put'']"

text \<open>
  The identifier of an operation may be \<open>undefined\<close>; then
  \<open>operationId?.split('_') || []\<close> is the empty array.
\<close>

definition dataFromOperationId :: "string option \<Rightarrow> string \<times> string" where
  "dataFromOperationId opId =
     (let name = (case opId of None \<Rightarrow> [] | Some s \<Rightarrow> split CHR ''_'' s)
      in if length name \<noteq> 2 then (''Service'', ''unknownName'')
         else (replace ''Controller'' ''Service'' (name ! 0), name ! 1))"

definition getOrCreateServiceFile ::
  "('s, 't) project \<Rightarrow> string \<Rightarrow> nat \<times> ('s, 't) project" where
  "getOrCreateServiceFile project filePath =
     (case getSourceFile project filePath of
        Some file \<Rightarrow> (file, project)
      | None \<Rightarrow>
          createSourceFile project filePath
            [''import type { Configuration } from '' @ [CHR 0x27] @ ''../utils'' @ [CHR 0x27]])"

definition getOrCreateServiceClass ::
  "('s, 't) emitter \<Rightarrow> string \<Rightarrow> nat \<Rightarrow> utils_file \<Rightarrow> ('s, 't) project \<Rightarrow>
   error + class_ref \<times> ('s, 't) project" where
  "getOrCreateServiceClass e fileName serviceFile utilsFile project =
     (case getClass (project ! serviceFile) fileName of
        Some c \<Rightarrow> Inr ((serviceFile, c), project)
      | None \<Rightarrow>
          (case getTypeAliasOrThrow utilsFile ''Configuration'' of
             Inl err \<Rightarrow> Inl err
           | Inr alias \<Rightarrow>
               addClass e serviceFile fileName True
                 [[\<lparr>cp_name = ''configuration'', cp_type = alias, cp_scope = Private\<rparr>]]
                 project))"

text \<open>The \<open>parameters\<close> of the method that \<open>serviceFromPathSpecification\<close> adds.\<close>

definition method_parameters ::
  "'s body_params option \<Rightarrow> 't parameter list \<Rightarrow> ('s, 't) parameter_decl list" where
  "method_parameters bodyParams ps =
     (let hasParameters = (bodyParams \<noteq> None \<or> length ps \<noteq> 0)
      in rejectFalsy
           [if hasParameters
            then Some \<lparr>pd_name = ''props'',
                       objectType =
                         rejectFalsy
                           (map_option
                              (\<lambda>b. \<lparr>ps_name = contentName b,
                                    ps_type = openAPISpecTreeSpecWriter (bp_schema b),
                                    hasQuestionToken = (\<not> bp_required b)\<rparr>)
                              bodyParams
                            # map (\<lambda>prop. Some \<lparr>ps_name = p_name prop,
                                                 ps_type = sanitizeType (p_schema_type prop),
                                                 hasQuestionToken = (\<not> p_required prop)\<rparr>)
                                ps)\<rparr>
            else None])"

text \<open>The \<open>statements\<close> of the method that \<open>serviceFromPathSpecification\<close> adds.\<close>

definition method_statements ::
  "('s, 't, 'x) helpers \<Rightarrow> string \<Rightarrow> string \<Rightarrow> ('s, 't) type_writer \<Rightarrow>
   's body_params option \<Rightarrow> (string \<Rightarrow> 't parameter list option) \<Rightarrow> ('s, 't) statement list" where
  "method_statements h rawPath method parametricType' bodyParams groupedInParams =
     rejectFalsy
       [Some (destructWriter False ''this.configuration'' [''baseUrl'', ''adapter'']),
        (case groupedInParams ''path'' of
           None \<Rightarrow> None
         | Some path \<Rightarrow>
             if length path \<noteq> 0 then Some (destructWriter True ''props'' (map p_name path))
             else None),
        Some newLine,
        Some (returnStatement
           \<lparr>callName = ''adapter'',
            parametricType = parametricType',
            params =
              [Object
                 [(''url'', printStringTemplate h (''${baseUrl}'' @ pathArgsToTemplate h rawPath)),
                  (''method'', Text ([CHR 0x27] @ toUpperCase method @ [CHR 0x27])),
                  (''queryParams'',
                   (case groupedInParams ''query'' of
                      None \<Rightarrow> Text ''undefined''
                    | Some query \<Rightarrow>
                        if length query \<noteq> 0
                        then Object (listToObject query
                               (\<lambda>item. (p_name item,
                                   Text (''props['' @ [CHR 0x27] @ p_name item @ [CHR 0x27]
                                         @ '']''))))
                        else Text ''undefined'')),
                  (''bodyArgs'',
                   (case bodyParams of
                      Some b \<Rightarrow>
                        Text (''props['' @ [CHR 0x27] @ contentName b @ [CHR 0x27] @ '']'')
                    | None \<Rightarrow> Text ''undefined''))]]\<rparr>)]"

text \<open>
  The names to import: \<open>bodyParams?.imports\<close> and \<open>returnType?.typeName\<close>, each a
  text or \<open>undefined\<close>, without the falsy ones.
\<close>

definition potentialImportsToInclude ::
  "'s body_params option \<Rightarrow> 's return_type option \<Rightarrow> string list" where
  "potentialImportsToInclude bodyParams returnType =
     rejectFalsy
       [falsy_string (Option.bind bodyParams bp_imports),
        falsy_string (Option.bind returnType typeName)]"

text \<open>
  The function returns the error it raised, if any, and the project as it is then. The
  read \<open>pathSpec[method]!\<close> of a verb the path does not have gives \<open>undefined\<close>,
  and the read of its \<open>operationId\<close> raises the \<open>TypeError\<close>.
\<close>

definition serviceFromPathSpecification ::
  "('s, 't, 'x) helpers \<Rightarrow> string \<Rightarrow> string \<Rightarrow> utils_file \<Rightarrow> string \<Rightarrow> ('t, 'x) path_item \<Rightarrow>
   string \<Rightarrow> ('s, 't) project \<Rightarrow> error option \<times> ('s, 't) project" where
  "serviceFromPathSpecification h rawPath method utilsFile modelsFile pathSpec rootDir project =
     (case map_of pathSpec method of
        None \<Rightarrow> (Some TypeError, project)
      | Some operationSpec \<Rightarrow>
          (let (fileName, methodName) = dataFromOperationId (operationId operationSpec);
               filePath = path_join h [rootDir, ''services'', fileName @ ''.ts''];
               (serviceFile, project1) = getOrCreateServiceFile project filePath
           in case getOrCreateServiceClass (ts_morph h) fileName serviceFile utilsFile project1 of
                Inl e \<Rightarrow> (Some e, project1)
              | Inr (nameSpace, project2) \<Rightarrow>
                  (let returnType = extractResponseType h operationSpec;
                       parametricType' =
                         (case returnType of
                            Some r \<Rightarrow> openAPISpecTreeSpecWriter (rt_schema r)
                          | None \<Rightarrow> literalWriter ''void'');
                       bodyParams = extractContentSchema h ''bodyArgs'' operationSpec;
                       groupedInParams = groupBy p_in (parameters operationSpec);
                       imports = potentialImportsToInclude bodyParams returnType;
                       project3 =
                         (if length imports \<noteq> 0
                          then project2[serviceFile := (project2 ! serviceFile)
                                 \<lparr>namedImports :=
                                    includeOrCreateNamedImport h modelsFile imports
                                      (namedImports (project2 ! serviceFile))\<rparr>]
                          else project2)
                   in case addMethod (ts_morph h) nameSpace
                             \<lparr>m_name = methodName,
                              m_parameters =
                                method_parameters bodyParams (parameters operationSpec),
                              m_statements =
                                method_statements h rawPath method parametricType' bodyParams
                                  groupedInParams\<rparr>
                             project3 of
                        Inl e \<Rightarrow> (Some e, project3)
                      | Inr project4 \<Rightarrow> (None, project4))))"

text \<open>
  \<open>Array.prototype.forEach\<close> with a callback that may throw: the first error ends the
  loop, and the project stays as the calls before it left it.
\<close>

fun forEach ::
  "('a \<Rightarrow> 'p \<Rightarrow> error option \<times> 'p) \<Rightarrow> 'a list \<Rightarrow> 'p \<Rightarrow> error option \<times> 'p" where
  "forEach f [] project = (None, project)"
| "forEach f (x # xs) project =
     (case f x project of
        (Some e, project') \<Rightarrow> (Some e, project')
      | (None, project') \<Rightarrow> forEach f xs project')"

text \<open>The callback that \<open>generateServices\<close> runs on each entry of \<open>spec.paths\<close>.\<close>

definition generateServices_path ::
  "('s, 't, 'x) helpers \<Rightarrow> string \<Rightarrow> utils_file \<Rightarrow> string \<Rightarrow> string \<times> ('t, 'x) path_item \<Rightarrow>
   ('s, 't) project \<Rightarrow> error option \<times> ('s, 't) project" where
  "generateServices_path h rootDir utils models entry project =
     (let (rawPath, pathSpec) = entry;
          pathSpecMethods = keys pathSpec;
          unknownOperations =
            filter (\<lambda>operation. \<not> array_includes knownOperations operation) pathSpecMethods
      in if length unknownOperations \<noteq> 0
         then (Some (Error (''Unknown operation(s) found for '' @ rawPath @ '': ''
                            @ array_toString unknownOperations)),
               project)
         else forEach
                (\<lambda>method. serviceFromPathSpecification h rawPath method utils models pathSpec
                   rootDir)
                pathSpecMethods project)"

definition generateServices ::
  "('s, 't, 'x) helpers \<Rightarrow> string \<Rightarrow> ('s, 't) project \<Rightarrow> string \<Rightarrow> utils_file \<Rightarrow>
   ('t, 'x) paths \<Rightarrow> error option \<times> ('s, 't) project" where
  "generateServices h rootDir project models utils spec_paths =
     forEach (generateServices_path h rootDir utils models) (entries spec_paths) project"

section \<open>Reading the project\<close>

text \<open>
  The methods of the class that \<open>getClass\<close> finds under a name in a file, and of the
  class that \<open>getSourceFile\<close> and \<open>getClass\<close> find under a path and a name in the
  project; no method where there is no such file or class.
\<close>

definition file_methods :: "('s, 't) source_file \<Rightarrow> string \<Rightarrow> ('s, 't) method_decl list" where
  "file_methods file cname =
     (case getClass file cname of None \<Rightarrow> [] | Some c \<Rightarrow> methods (classes file ! c))"

definition class_methods ::
  "('s, 't) project \<Rightarrow> string \<Rightarrow> string \<Rightarrow> ('s, 't) method_decl list" where
  "class_methods project filePath cname =
     (case getSourceFile project filePath of
        None \<Rightarrow> []
      | Some file \<Rightarrow> file_methods (project ! file) cname)"

text \<open>
  The reference to the class that \<open>getSourceFile\<close> and \<open>getClass\<close> find under a path
  and a name.
\<close>

definition service_class :: "('s, 't) project \<Rightarrow> string \<Rightarrow> string \<Rightarrow> class_ref option" where
  "service_class project filePath cname =
     (case getSourceFile project filePath of
        None \<Rightarrow> None
      | Some file \<Rightarrow> map_option (\<lambda>c. (file, c)) (getClass (project ! file) cname))"

text \<open>The methods of the class at a reference; none where the store has no such class.\<close>

definition methods_at :: "('s, 't) project \<Rightarrow> class_ref \<Rightarrow> ('s, 't) method_decl list" where
  "methods_at project r =
     (if fst r < length project \<and> snd r < length (classes (project ! fst r))
      then methods (classes (project ! fst r) ! snd r) else [])"

text \<open>Every class of the project has a body.\<close>

definition bodies :: "('s, 't) project \<Rightarrow> bool" where
  "bodies project = list_all (\<lambda>file. list_all c_body (classes file)) project"

text \<open>
  The emitter reads the name \<open>n\<close> back from the text of the class that it prints with
  this name; and it reads the name back and a body with it.
\<close>

definition reads_back :: "('s, 't) emitter \<Rightarrow> string \<Rightarrow> bool" where
  "reads_back e n = (map_option fst (class_text e n) = Some (Some n))"

definition takes_class :: "('s, 't) emitter \<Rightarrow> string \<Rightarrow> bool" where
  "takes_class e n = (class_text e n = Some (Some n, True))"

text \<open>
  The service name and the file path that \<open>serviceFromPathSpecification\<close> computes for
  an operation, and the method it passes to \<open>addMethod\<close>.
\<close>

definition service_name :: "('t, 'x) operation \<Rightarrow> string" where
  "service_name operationSpec = fst (dataFromOperationId (operationId operationSpec))"

definition service_path :: "('s, 't, 'x) helpers \<Rightarrow> string \<Rightarrow> ('t, 'x) operation \<Rightarrow> string" where
  "service_path h rootDir operationSpec =
     path_join h [rootDir, ''services'', service_name operationSpec @ ''.ts'']"

definition generated_method ::
  "('s, 't, 'x) helpers \<Rightarrow> string \<Rightarrow> string \<Rightarrow> ('t, 'x) operation \<Rightarrow> ('s, 't) method_decl" where
  "generated_method h rawPath method operationSpec =
     \<lparr>m_name = snd (dataFromOperationId (operationId operationSpec)),
      m_parameters =
        method_parameters (extractContentSchema h ''bodyArgs'' operationSpec)
          (parameters operationSpec),
      m_statements =
        method_statements h rawPath method
          (case extractResponseType h operationSpec of
             Some r \<Rightarrow> openAPISpecTreeSpecWriter (rt_schema r)
           | None \<Rightarrow> literalWriter ''void'')
          (extractContentSchema h ''bodyArgs'' operationSpec)
          (groupBy p_in (parameters operationSpec))\<rparr>"

text \<open>
  The project after the step of \<open>serviceFromPathSpecification\<close> that registers the
  imports of an operation in the service file.
\<close>

definition registered_imports ::
  "('s, 't, 'x) helpers \<Rightarrow> string \<Rightarrow> ('t, 'x) operation \<Rightarrow> nat \<Rightarrow> ('s, 't) project \<Rightarrow>
   ('s, 't) project" where
  "registered_imports h modelsFile operationSpec serviceFile project =
     (let imports =
            potentialImportsToInclude (extractContentSchema h ''bodyArgs'' operationSpec)
              (extractResponseType h operationSpec)
      in if length imports \<noteq> 0
         then project[serviceFile := (project ! serviceFile)
                \<lparr>namedImports :=
                   includeOrCreateNamedImport h modelsFile imports
                     (namedImports (project ! serviceFile))\<rparr>]
         else project)"

text \<open>
  The operations of a description in the order \<open>generateServices\<close> meets them: for each
  path in turn, each of its verbs in turn.
\<close>

definition path_operations ::
  "string \<times> ('t, 'x) path_item \<Rightarrow> (string \<times> string \<times> ('t, 'x) path_item) list" where
  "path_operations entry = map (\<lambda>method. (fst entry, method, snd entry)) (keys (snd entry))"

definition operations_of ::
  "('t, 'x) paths \<Rightarrow> (string \<times> string \<times> ('t, 'x) path_item) list" where
  "operations_of spec_paths = concat (map path_operations (entries spec_paths))"

text \<open>The call that \<open>generateServices\<close> makes for one operation of that list.\<close>

definition serviceFromOperation ::
  "('s, 't, 'x) helpers \<Rightarrow> string \<Rightarrow> utils_file \<Rightarrow> string \<Rightarrow>
   string \<times> string \<times> ('t, 'x) path_item \<Rightarrow> ('s, 't) project \<Rightarrow>
   error option \<times> ('s, 't) project" where
  "serviceFromOperation h rootDir utils models operation project =
     (case operation of
        (rawPath, method, pathSpec) \<Rightarrow>
          serviceFromPathSpecification h rawPath method utils models pathSpec rootDir project)"




section \<open>The spec's words, for comparison\<close>

text \<open>
  The spec says of the service name that "a fixed suffix denoting controller is rewritten
  to a suffix denoting service". Read as it is written: a text that ends in the old
  suffix gets the new one in its place, and any other text stays as it is.
\<close>

definition rewrite_suffix :: "string \<Rightarrow> string \<Rightarrow> string \<Rightarrow> string" where
  "rewrite_suffix old new s =
     (if length old \<le> length s \<and> drop (length s - length old) s = old
      then take (length s - length old) s @ new else s)"

text \<open>
  Modelled from the spec: \<open>includeOrCreateNamedImport\<close> of \<open>../utils\<close> is not part of
  the sources. It is to "ensure each name is importable from the shared type-definitions
  module, inserting a new import statement only for names not already imported into that
  module"; the import set of a module is "a set of (source-module, name) pairs; adding an
  already-present pair is a no-op".
\<close>

definition includeOrCreateNamedImport_spec ::
  "string \<Rightarrow> string list \<Rightarrow> (string \<times> string) list \<Rightarrow> (string \<times> string) list" where
  "includeOrCreateNamedImport_spec fromTargetFile names inFile =
     fold (\<lambda>n acc. if (fromTargetFile, n) \<in> set acc then acc else acc @ [(fromTargetFile, n)])
       names inFile"

text \<open>
  Modelled from the spec: \<open>pathArgsToTemplate\<close> and \<open>printStringTemplate\<close> of
  \<open>../utils\<close> are not part of the sources. The spec's example turns the path
  \<open>/users/{id}\<close> into the template text of \<open>${baseUrl}/users/${id}\<close>: each
  placeholder \<open>{name}\<close> becomes the reference \<open>${name}\<close>, and the whole is put
  between backquotes.
\<close>

fun pathArgsToTemplate_spec :: "string \<Rightarrow> string" where
  "pathArgsToTemplate_spec [] = []"
| "pathArgsToTemplate_spec (c # cs) =
     (if c = CHR ''{'' then ''${'' @ pathArgsToTemplate_spec cs
      else c # pathArgsToTemplate_spec cs)"

definition printStringTemplate_spec :: "string \<Rightarrow> writer_value" where
  "printStringTemplate_spec s = Text (CHR 0x60 # s @ [CHR 0x60])"

text \<open>
  Modelled from the spec: \<open>extractContentSchema\<close> and \<open>extractResponseType\<close> of
  \<open>../utils\<close> are not part of the sources. An operation has an "optional request-body
  schema" and an "optional response schema"; the first gives the "record of
  {contentName, schema, required}" under the content name asked for, the second is
  returned as it is.
\<close>

definition extractContentSchema_spec ::
  "string \<Rightarrow> ('t, 's body_params option \<times> 's return_type option) operation \<Rightarrow>
   's body_params option" where
  "extractContentSchema_spec cname operationSpec =
     map_option (\<lambda>b. b\<lparr>contentName := cname\<rparr>) (fst (op_content operationSpec))"

definition extractResponseType_spec ::
  "('t, 's body_params option \<times> 's return_type option) operation \<Rightarrow> 's return_type option" where
  "extractResponseType_spec operationSpec = snd (op_content operationSpec)"

text \<open>
  The spec says of the field \<open>queryParams\<close> that it is "an object built from every
  query-location parameter, mapping its name to a property access", with "exactly one
  entry per query-location parameter", or the "absent" marker when there is none. Read as
  it is written: one entry for each query parameter, in the order of the declaration.
\<close>

definition queryParams_spec :: "'t parameter list \<Rightarrow> writer_value" where
  "queryParams_spec ps =
     (let query = filter (\<lambda>p. p_in p = ''query'') ps
      in if query = [] then Text ''undefined''
         else Object (map (\<lambda>p. (p_name p,
                                  Text (''props['' @ [CHR 0x27] @ p_name p @ [CHR 0x27] @ '']'')))
                        query))"

section \<open>The platform and the emitter of the examples\<close>

text \<open>
  \<open>path.join\<close> of Node on a POSIX system: the segments that are not empty, with a
  \<open>/\<close> between them, normalised. The normal form has no empty segment and no
  \<open>.\<close>, and a \<open>..\<close> takes the segment before it away; it keeps a \<open>/\<close> at the
  start and one at the end.
\<close>

fun join_with :: "string \<Rightarrow> string list \<Rightarrow> string" where
  "join_with sep [] = []"
| "join_with sep [x] = x"
| "join_with sep (x # y # ys) = x @ sep @ join_with sep (y # ys)"

fun normalizeString :: "string list \<Rightarrow> bool \<Rightarrow> string list \<Rightarrow> string list" where
  "normalizeString [] allowAboveRoot res = res"
| "normalizeString (seg # segs) allowAboveRoot res =
     (if seg = [] \<or> seg = ''.'' then normalizeString segs allowAboveRoot res
      else if seg = ''..''
      then (if res \<noteq> [] \<and> last res \<noteq> ''..''
            then normalizeString segs allowAboveRoot (butlast res)
            else if allowAboveRoot then normalizeString segs allowAboveRoot (res @ [''..''])
            else normalizeString segs allowAboveRoot res)
      else normalizeString segs allowAboveRoot (res @ [seg]))"

definition normalize :: "string \<Rightarrow> string" where
  "normalize p =
     (if p = [] then ''.''
      else (let isAbsolute = (hd p = CHR ''/'');
                trailingSeparator = (last p = CHR ''/'');
                q = join_with ''/'' (normalizeString (split CHR ''/'' p) (\<not> isAbsolute) [])
            in if q = [] then (if isAbsolute then ''/'' else if trailingSeparator then ''./'' else ''.'')
               else (if isAbsolute then ''/'' else []) @ q
                    @ (if trailingSeparator then ''/'' else [])))"

definition path_join_posix :: "string list \<Rightarrow> string" where
  "path_join_posix args =
     (let joined = join_with ''/'' (filter (\<lambda>a. a \<noteq> []) args)
      in if joined = [] then ''.'' else normalize joined)"

text \<open>
  An emitter for the examples: what \<open>ts-morph\<close> does with the names that the examples
  below use. A name of ASCII letters, digits, \<open>_\<close> and \<open>$\<close> that does not start
  with a digit is a plain identifier (the reserved words of the language are not told
  apart; no example uses one). A class printed with a plain identifier is read back under
  that name, with its body, and a class printed with the empty name is a class without a
  name, with its body. A class printed with two plain identifiers joined by \<open>-\<close>, as
  \<open>User-Service\<close>, is read back under the first of them, without a body: what
  follows the first identifier is not read as the body of the class. A method is taken
  when its name is a plain identifier, the fields of its \<open>props\<close> are plain
  identifiers or array indices, and the names that it destructures are plain identifiers;
  the header name \<open>X-Trace\<close> is neither a plain identifier nor an array index, and
  the text of a method that has it as a field of \<open>props\<close> does not parse. This
  emitter refuses every other text; the library takes some of them, and none of them is
  used below.
\<close>

definition ident_start :: "char \<Rightarrow> bool" where
  "ident_start c =
     (let n = (of_char c :: nat)
      in (65 \<le> n \<and> n \<le> 90) \<or> (97 \<le> n \<and> n \<le> 122) \<or> n = 95 \<or> n = 36)"

definition plain_identifier :: "string \<Rightarrow> bool" where
  "plain_identifier s =
     (s \<noteq> [] \<and> ident_start (hd s) \<and> list_all (\<lambda>c. ident_start c \<or> digit c) s)"

definition property_name :: "string \<Rightarrow> bool" where
  "property_name s = (plain_identifier s \<or> array_index s)"

fun destructured :: "('s, 't) statement \<Rightarrow> string list" where
  "destructured (destructWriter multiline target properties) = properties"
| "destructured _ = []"

definition example_emitter :: "('s, 't) emitter" where
  "example_emitter =
     \<lparr>class_text =
        (\<lambda>n. if n = [] then Some (None, True)
              else if plain_identifier n then Some (Some n, True)
              else (case split CHR ''-'' n of
                      [first, second] \<Rightarrow>
                        if plain_identifier first \<and> plain_identifier second
                        then Some (Some first, False) else None
                    | _ \<Rightarrow> None)),
      method_text =
        (\<lambda>m. plain_identifier (m_name m)
              \<and> list_all (\<lambda>decl. list_all (\<lambda>f. property_name (ps_name f)) (objectType decl))
                   (m_parameters m)
              \<and> list_all (\<lambda>s. list_all plain_identifier (destructured s)) (m_statements m))\<rparr>"

definition spec_helpers ::
  "('s, 't, 's body_params option \<times> 's return_type option) helpers" where
  "spec_helpers =
     \<lparr>extractContentSchema = extractContentSchema_spec,
      extractResponseType = extractResponseType_spec,
      includeOrCreateNamedImport = includeOrCreateNamedImport_spec,
      pathArgsToTemplate = pathArgsToTemplate_spec,
      printStringTemplate = printStringTemplate_spec,
      path_join = path_join_posix,
      ts_morph = example_emitter\<rparr>"

text \<open>The named imports of the file that \<open>getSourceFile\<close> finds under a path.\<close>

definition file_imports :: "('s, 't) project \<Rightarrow> string \<Rightarrow> (string \<times> string) list" where
  "file_imports project filePath =
     (case getSourceFile project filePath of
        None \<Rightarrow> []
      | Some file \<Rightarrow> namedImports (project ! file))"

text \<open>The field of a name in the object that a \<open>return\<close> statement passes to its call.\<close>

fun request_field :: "('s, 't) statement \<Rightarrow> string \<Rightarrow> writer_value option" where
  "request_field (returnStatement c) field =
     (case params c of [Object kvs] \<Rightarrow> map_of kvs field | _ \<Rightarrow> None)"
| "request_field _ field = None"

section \<open>The examples\<close>

text \<open>
  The operation of the spec's end-to-end example: the identifier
  \<open>UserController_getUser\<close>, one required path parameter \<open>id\<close> of the type
  \<open>string\<close>, the response schema \<open>User\<close>; and a file of utilities that declares
  the type \<open>Configuration\<close>.
\<close>

definition example_operation ::
  "(string, string body_params option \<times> string return_type option) operation" where
  "example_operation =
     \<lparr>operationId = Some ''UserController_getUser'',
      parameters =
        [\<lparr>p_name = ''id'', p_in = ''path'', p_schema_type = ''string'', p_required = True\<rparr>],
      op_content = (None, Some \<lparr>rt_schema = ''User'', typeName = Some ''User''\<rparr>)\<rparr>"

definition example_utils :: utils_file where
  "example_utils = \<lparr>typeAliases = [''Configuration'']\<rparr>"

text \<open>
  An operation with a body, a query parameter and a header parameter, and no response
  schema. The names of its parameters are plain identifiers.
\<close>

definition example_search ::
  "(string, string body_params option \<times> string return_type option) operation" where
  "example_search =
     \<lparr>operationId = Some ''UserController_search'',
      parameters =
        [\<lparr>p_name = ''limit'', p_in = ''query'', p_schema_type = ''number'', p_required = False\<rparr>,
         \<lparr>p_name = ''traceId'', p_in = ''header'', p_schema_type = ''string'',
           p_required = False\<rparr>],
      op_content =
        (Some \<lparr>contentName = ''bodyArgs'', bp_schema = ''Filter'', bp_required = True,
                bp_imports = Some ''Filter''\<rparr>,
         None)\<rparr>"

text \<open>
  An operation with a body schema and a response schema, each of which names a type to
  import.
\<close>

definition example_create ::
  "(string, string body_params option \<times> string return_type option) operation" where
  "example_create =
     \<lparr>operationId = Some ''UserController_create'',
      parameters = [],
      op_content =
        (Some \<lparr>contentName = ''bodyArgs'', bp_schema = ''NewUser'', bp_required = True,
                bp_imports = Some ''NewUser''\<rparr>,
         Some \<lparr>rt_schema = ''User'', typeName = Some ''User''\<rparr>)\<rparr>"





definition example_indexed ::
  "(string, string body_params option \<times> string return_type option) operation" where
  "example_indexed =
     \<lparr>operationId = Some ''UserController_list'',
      parameters =
        [\<lparr>p_name = ''b'', p_in = ''query'', p_schema_type = ''string'', p_required = False\<rparr>,
         \<lparr>p_name = ''1'', p_in = ''query'', p_schema_type = ''string'', p_required = False\<rparr>],
      op_content = (None, None)\<rparr>"

section \<open>The store of the project\<close>

lemma find_index_Some:
  "find_index P xs = Some i \<Longrightarrow> i < length xs \<and> P (xs ! i)"
  by (induction xs arbitrary: i) (auto split: if_splits)

lemma find_index_None: "find_index P xs = None \<longleftrightarrow> (\<forall>x \<in> set xs. \<not> P x)"
  by (induction xs) auto

lemma find_index_append:
  "find_index P (xs @ ys) =
     (case find_index P xs of
        Some i \<Rightarrow> Some i
      | None \<Rightarrow> map_option (\<lambda>j. length xs + j) (find_index P ys))"
  by (induction xs) (cases "find_index P ys"; auto split: option.splits)+

lemma find_index_update:
  "i < length xs \<Longrightarrow> P y = P (xs ! i) \<Longrightarrow> find_index P (xs[i := y]) = find_index P xs"
  by (induction xs arbitrary: i) (auto split: nat.splits)

lemma getSourceFile_Some:
  "getSourceFile project F = Some f \<Longrightarrow> f < length project \<and> sf_path (project ! f) = F"
  using find_index_Some [of "\<lambda>f. sf_path f = F" project f] by (simp add: getSourceFile_def)

lemma getClass_Some:
  "getClass fl N = Some c \<Longrightarrow> c < length (classes fl) \<and> c_name (classes fl ! c) = Some N"
  using find_index_Some [of "\<lambda>c. c_name c = Some N" "classes fl" c] by (simp add: getClass_def)

lemma getSourceFile_update:
  assumes "f < length p" and "sf_path file' = sf_path (p ! f)"
  shows "getSourceFile (p[f := file']) F = getSourceFile p F"
  unfolding getSourceFile_def using assms by (intro find_index_update) auto

lemma getSourceFile_iff:
  assumes "getSourceFile p F0 = Some sf"
  shows "getSourceFile p F = Some sf \<longleftrightarrow> F = F0"
  using assms getSourceFile_Some [of p F sf] getSourceFile_Some [of p F0 sf] by auto

text \<open>What the four updates of the store do to the methods of a class at a reference.\<close>

lemma methods_at_createSourceFile:
  "methods_at (p @ [\<lparr>sf_path = F0, sf_statements = st, namedImports = [], classes = []\<rparr>]) r
     = methods_at p r"
  by (cases "fst r < length p") (auto simp: methods_at_def nth_append less_Suc_eq)

lemma methods_at_addClass:
  assumes "sf < length p" and "methods c = []"
  shows "methods_at (p[sf := (p ! sf)\<lparr>classes := classes (p ! sf) @ [c]\<rparr>]) r = methods_at p r"
  using assms
  by (cases "fst r = sf") (auto simp: methods_at_def nth_append less_Suc_eq)

lemma methods_at_imports:
  assumes "sf < length p"
  shows "methods_at (p[sf := (p ! sf)\<lparr>namedImports := x\<rparr>]) r = methods_at p r"
  using assms by (cases "fst r = sf") (auto simp: methods_at_def)

lemma methods_at_addMethod:
  assumes "sf < length p" and "c < length (classes (p ! sf))"
  shows "methods_at
           (p[sf := (p ! sf)\<lparr>classes := (classes (p ! sf))
                [c := (classes (p ! sf) ! c)\<lparr>methods := methods (classes (p ! sf) ! c) @ [m]\<rparr>]\<rparr>]) r
         = methods_at p r @ (if r = (sf, c) then [m] else [])"
  using assms
  by (cases r; cases "fst r = sf"; cases "snd r = c") (auto simp: methods_at_def)

text \<open>What they do to the methods of the class that is found under a name.\<close>

lemma file_methods_imports [simp]:
  "file_methods (fl\<lparr>namedImports := x\<rparr>) N = file_methods fl N"
  by (simp add: file_methods_def getClass_def split: option.splits)

lemma file_methods_addClass:
  assumes "methods c = []"
  shows "file_methods (fl\<lparr>classes := classes fl @ [c]\<rparr>) N = file_methods fl N"
  using assms
  by (auto simp: file_methods_def getClass_def find_index_append nth_append find_index_None
      dest: find_index_Some split: option.splits)

lemma file_methods_addMethod:
  assumes "c < length (classes fl)"
  shows "file_methods
           (fl\<lparr>classes := (classes fl)[c := (classes fl ! c)\<lparr>methods := methods (classes fl ! c) @ [m]\<rparr>]\<rparr>) N
         = file_methods fl N @ (if getClass fl N = Some c then [m] else [])"
proof -
  let ?cs = "classes fl"
  let ?c' = "(?cs ! c)\<lparr>methods := methods (?cs ! c) @ [m]\<rparr>"
  have same: "find_index (\<lambda>c. c_name c = Some N) (?cs[c := ?c'])
      = find_index (\<lambda>c. c_name c = Some N) ?cs"
    using assms by (intro find_index_update) auto
  show ?thesis
  proof (cases "find_index (\<lambda>c. c_name c = Some N) ?cs")
    case None
    with same show ?thesis by (auto simp: file_methods_def getClass_def)
  next
    case (Some d)
    then have d: "d < length ?cs"
      using find_index_Some [of "\<lambda>c. c_name c = Some N" ?cs d] by auto
    show ?thesis
      using Some same assms d by (cases "d = c") (auto simp: file_methods_def getClass_def)
  qed
qed

lemma class_methods_update:
  assumes "f < length project" and "sf_path file' = sf_path (project ! f)"
  shows "class_methods (project[f := file']) F N =
           (if getSourceFile project F = Some f then file_methods file' N
            else class_methods project F N)"
proof -
  note same = getSourceFile_update [OF assms, of F]
  show ?thesis
  proof (cases "getSourceFile project F")
    case None
    with same show ?thesis by (simp add: class_methods_def)
  next
    case (Some g)
    then have "g < length project" using getSourceFile_Some by blast
    with Some same assms show ?thesis by (auto simp: class_methods_def)
  qed
qed

lemma class_methods_found:
  "getSourceFile p F = Some f \<Longrightarrow> class_methods p F N = file_methods (p ! f) N"
  by (simp add: class_methods_def)

lemma class_methods_createSourceFile:
  assumes "getSourceFile project F0 = None"
  shows "class_methods (project @ [\<lparr>sf_path = F0, sf_statements = st, namedImports = [], classes = []\<rparr>]) F N
         = class_methods project F N"
  using assms
  by (auto simp: class_methods_def getSourceFile_def find_index_append nth_append file_methods_def
      getClass_def dest: find_index_Some split: option.splits)

lemma class_methods_addClass:
  assumes "sf < length p" and "methods c = []"
  shows "class_methods (p[sf := (p ! sf)\<lparr>classes := classes (p ! sf) @ [c]\<rparr>]) F N
         = class_methods p F N"
  using assms
  by (auto simp: class_methods_update file_methods_addClass class_methods_found)

lemma class_methods_imports:
  assumes "sf < length p"
  shows "class_methods (p[sf := (p ! sf)\<lparr>namedImports := x\<rparr>]) F N = class_methods p F N"
  using assms by (auto simp: class_methods_update class_methods_found)

lemma class_methods_addMethod:
  assumes "sf < length p" and "c < length (classes (p ! sf))"
  shows "class_methods
           (p[sf := (p ! sf)\<lparr>classes := (classes (p ! sf))
                [c := (classes (p ! sf) ! c)\<lparr>methods := methods (classes (p ! sf) ! c) @ [m]\<rparr>]\<rparr>]) F N
         = class_methods p F N
           @ (if getSourceFile p F = Some sf \<and> getClass (p ! sf) N = Some c then [m] else [])"
  using assms
  by (auto simp: class_methods_update file_methods_addMethod class_methods_found)

text \<open>What they do to the class that is found under a path and a name.\<close>

lemma service_class_Some:
  "service_class p F N = Some r \<longleftrightarrow>
     getSourceFile p F = Some (fst r) \<and> getClass (p ! fst r) N = Some (snd r)"
  by (cases r) (auto simp: service_class_def split: option.splits)

lemma service_class_methods:
  "service_class p F N = Some r \<Longrightarrow> methods_at p r = class_methods p F N"
  by (auto simp: service_class_Some methods_at_def class_methods_def file_methods_def
      dest: getSourceFile_Some getClass_Some)

lemma service_class_update:
  assumes "f < length p" and "sf_path file' = sf_path (p ! f)"
    and "\<And>c. getClass (p ! f) N = Some c \<Longrightarrow> getClass file' N = Some c"
    and "service_class p F N = Some r"
  shows "service_class (p[f := file']) F N = Some r"
proof -
  note same = getSourceFile_update [OF assms(1,2), of F]
  from assms(4) have r: "getSourceFile p F = Some (fst r)" "getClass (p ! fst r) N = Some (snd r)"
    by (simp_all add: service_class_Some)
  show ?thesis
  proof (cases "fst r = f")
    case True
    with r same assms(1,3) show ?thesis by (simp add: service_class_Some)
  next
    case False
    with r same show ?thesis by (simp add: service_class_Some)
  qed
qed

lemma getClass_append:
  "getClass fl N = Some c \<Longrightarrow> getClass (fl\<lparr>classes := classes fl @ [d]\<rparr>) N = Some c"
  by (simp add: getClass_def find_index_append)

lemma getClass_addMethod:
  assumes "c < length (classes fl)"
  shows "getClass (fl\<lparr>classes := (classes fl)[c := (classes fl ! c)\<lparr>methods := ms\<rparr>]\<rparr>) N
         = getClass fl N"
  unfolding getClass_def using assms by (simp add: find_index_update)

lemma service_class_createSourceFile:
  assumes "service_class p F N = Some r"
  shows "service_class (p @ [fl]) F N = Some r"
proof -
  from assms have r: "getSourceFile p F = Some (fst r)" "getClass (p ! fst r) N = Some (snd r)"
    by (simp_all add: service_class_Some)
  then have "fst r < length p" using getSourceFile_Some by blast
  with r show ?thesis
    by (auto simp: service_class_Some getSourceFile_def find_index_append nth_append)
qed

lemma service_class_addClass:
  assumes "sf < length p" and "service_class p F N = Some r"
  shows "service_class (p[sf := (p ! sf)\<lparr>classes := classes (p ! sf) @ [c]\<rparr>]) F N = Some r"
  using assms by (intro service_class_update) (auto simp: getClass_append)

lemma service_class_imports:
  assumes "sf < length p" and "service_class p F N = Some r"
  shows "service_class (p[sf := (p ! sf)\<lparr>namedImports := x\<rparr>]) F N = Some r"
  using assms by (intro service_class_update) (auto simp: getClass_def)

lemma service_class_addMethod:
  assumes "sf < length p" and "c < length (classes (p ! sf))"
    and "service_class p F N = Some r"
  shows "service_class
           (p[sf := (p ! sf)\<lparr>classes := (classes (p ! sf))
                [c := (classes (p ! sf) ! c)\<lparr>methods := ms\<rparr>]\<rparr>]) F N = Some r"
  using assms by (intro service_class_update) (auto simp: getClass_addMethod)


text \<open>What they do to the named imports of the file that is found under a path.\<close>

lemma file_imports_update:
  assumes "f < length p" and "sf_path file' = sf_path (p ! f)"
  shows "file_imports (p[f := file']) F =
           (if getSourceFile p F = Some f then namedImports file' else file_imports p F)"
proof -
  note same = getSourceFile_update [OF assms, of F]
  show ?thesis
  proof (cases "getSourceFile p F")
    case None
    with same show ?thesis by (simp add: file_imports_def)
  next
    case (Some g)
    then have "g < length p" using getSourceFile_Some by blast
    with Some same assms show ?thesis by (auto simp: file_imports_def)
  qed
qed

lemma file_imports_found:
  "getSourceFile p F = Some f \<Longrightarrow> file_imports p F = namedImports (p ! f)"
  by (simp add: file_imports_def)

lemma file_imports_createSourceFile:
  assumes "getSourceFile project F0 = None"
  shows "file_imports
           (project @ [\<lparr>sf_path = F0, sf_statements = st, namedImports = [], classes = []\<rparr>]) F
         = file_imports project F"
  using assms
  by (auto simp: file_imports_def getSourceFile_def find_index_append nth_append
      dest: find_index_Some split: option.splits if_splits)

lemma file_imports_same:
  assumes "sf < length p" and "sf_path file' = sf_path (p ! sf)"
    and "namedImports file' = namedImports (p ! sf)"
  shows "file_imports (p[sf := file']) F = file_imports p F"
  using assms by (auto simp: file_imports_update file_imports_found)

text \<open>What they do to the bodies of the classes.\<close>

lemma bodies_nth:
  "bodies p \<longleftrightarrow>
     (\<forall>f < length p. \<forall>c < length (classes (p ! f)). c_body (classes (p ! f) ! c))"
  by (simp add: bodies_def list_all_length)

lemma bodies_createSourceFile:
  "bodies (p @ [\<lparr>sf_path = F0, sf_statements = st, namedImports = [], classes = []\<rparr>]) = bodies p"
  by (simp add: bodies_def)

lemma bodies_update:
  assumes "sf < length p"
  shows "bodies (p[sf := fl]) \<longleftrightarrow>
           (\<forall>f < length p. f \<noteq> sf \<longrightarrow> list_all c_body (classes (p ! f)))
           \<and> list_all c_body (classes fl)"
  using assms by (auto simp: bodies_def list_all_length nth_list_update)

lemma bodies_addClass:
  assumes "sf < length p" and "bodies p" and "c_body c"
  shows "bodies (p[sf := (p ! sf)\<lparr>classes := classes (p ! sf) @ [c]\<rparr>])"
  using assms by (auto simp: bodies_update) (auto simp: bodies_def list_all_length)

lemma bodies_imports:
  assumes "sf < length p" and "bodies p"
  shows "bodies (p[sf := (p ! sf)\<lparr>namedImports := x\<rparr>])"
  using assms by (auto simp: bodies_update) (auto simp: bodies_def list_all_length)



section \<open>The steps of one call\<close>

lemma getOrCreateServiceFile_cases:
  assumes "getOrCreateServiceFile project F0 = (sf, p1)"
  obtains (found) "getSourceFile project F0 = Some sf" "p1 = project"
  | (created) st where "getSourceFile project F0 = None" "sf = length project"
      "p1 = project @ [\<lparr>sf_path = F0, sf_statements = st, namedImports = [], classes = []\<rparr>]"
  using assms
  by (auto simp: getOrCreateServiceFile_def createSourceFile_def split: option.splits)

lemma getOrCreateServiceFile_step:
  assumes "getOrCreateServiceFile project F0 = (sf, p1)"
  shows "getSourceFile p1 F0 = Some sf"
    and "methods_at p1 r = methods_at project r"
    and "class_methods p1 F N = class_methods project F N"
    and "service_class project F N = Some r \<Longrightarrow> service_class p1 F N = Some r"
    and "file_imports p1 F = file_imports project F"
    and "bodies p1 = bodies project"
  using assms
  by (cases rule: getOrCreateServiceFile_cases;
      simp add: methods_at_createSourceFile class_methods_createSourceFile
        service_class_createSourceFile file_imports_createSourceFile bodies_createSourceFile
        getSourceFile_def find_index_append)+

lemma getOrCreateServiceClass_cases:
  assumes "getOrCreateServiceClass e N0 sf u p1 = Inr (r, p2)"
  obtains (found) c where "getClass (p1 ! sf) N0 = Some c" "r = (sf, c)" "p2 = p1"
  | (created) c where "getClass (p1 ! sf) N0 = None"
      "class_text e N0 = Some (c_name c, c_body c)" "methods c = []"
      "r = (sf, length (classes (p1 ! sf)))"
      "p2 = p1[sf := (p1 ! sf)\<lparr>classes := classes (p1 ! sf) @ [c]\<rparr>]"
proof (cases "getClass (p1 ! sf) N0")
  case (Some c)
  with assms show ?thesis by (intro found [of c]) (auto simp: getOrCreateServiceClass_def)
next
  case None
  with assms obtain ty read body where
    t: "class_text e N0 = Some (read, body)"
    and r: "r = (sf, length (classes (p1 ! sf)))"
    and p2: "p2 = p1[sf := (p1 ! sf)\<lparr>classes := classes (p1 ! sf) @
       [\<lparr>c_name = read, c_body = body, isExported = True,
         ctors = (if body
                  then [[\<lparr>cp_name = ''configuration'', cp_type = ty, cp_scope = Private\<rparr>]]
                  else []),
         methods = []\<rparr>]\<rparr>]"
    by (auto simp: getOrCreateServiceClass_def addClass_def split: sum.splits option.splits)
  show ?thesis
    by (rule created [OF None _ _ r p2]) (simp_all add: t)
qed

lemma getOrCreateServiceClass_step:
  assumes "getSourceFile p1 F0 = Some sf"
    and "getOrCreateServiceClass e N0 sf u p1 = Inr (r, p2)"
  shows "fst r = sf" and "snd r < length (classes (p2 ! sf))"
    and "getSourceFile p2 F = getSourceFile p1 F"
    and "methods_at p2 r' = methods_at p1 r'"
    and "class_methods p2 F N = class_methods p1 F N"
    and "service_class p1 F N = Some r' \<Longrightarrow> service_class p2 F N = Some r'"
    and "file_imports p2 F = file_imports p1 F"
    and "reads_back e N0 \<Longrightarrow> getClass (p2 ! sf) N0 = Some (snd r)"
    and "bodies p1 \<Longrightarrow> c_body (classes (p2 ! sf) ! snd r) \<Longrightarrow> bodies p2"
    and "bodies p1 \<Longrightarrow> takes_class e N0 \<Longrightarrow> c_body (classes (p2 ! sf) ! snd r)"
proof -
  from assms(1) have sf: "sf < length p1" "sf_path (p1 ! sf) = F0"
    using getSourceFile_Some by blast+
  from assms(2) show "fst r = sf"
    by (cases rule: getOrCreateServiceClass_cases) simp_all
  from assms(2) sf show "snd r < length (classes (p2 ! sf))"
    by (cases rule: getOrCreateServiceClass_cases) (auto dest: getClass_Some)
  from assms(2) sf show "getSourceFile p2 F = getSourceFile p1 F"
    by (cases rule: getOrCreateServiceClass_cases) (simp_all add: getSourceFile_update)
  from assms(2) sf show "methods_at p2 r' = methods_at p1 r'"
    by (cases rule: getOrCreateServiceClass_cases) (simp_all add: methods_at_addClass)
  from assms(2) sf show "class_methods p2 F N = class_methods p1 F N"
    by (cases rule: getOrCreateServiceClass_cases) (simp_all add: class_methods_addClass)
  from assms(2) sf show "service_class p1 F N = Some r' \<Longrightarrow> service_class p2 F N = Some r'"
    by (cases rule: getOrCreateServiceClass_cases) (simp_all add: service_class_addClass)
  from assms(2) sf show "file_imports p2 F = file_imports p1 F"
    by (cases rule: getOrCreateServiceClass_cases) (simp_all add: file_imports_same)
  from assms(2) sf show "reads_back e N0 \<Longrightarrow> getClass (p2 ! sf) N0 = Some (snd r)"
    by (cases rule: getOrCreateServiceClass_cases)
       (auto simp: reads_back_def getClass_def find_index_append)
  from assms(2) sf show "bodies p1 \<Longrightarrow> c_body (classes (p2 ! sf) ! snd r) \<Longrightarrow> bodies p2"
    by (cases rule: getOrCreateServiceClass_cases) (auto simp: bodies_addClass)
  from assms(2) sf show "bodies p1 \<Longrightarrow> takes_class e N0 \<Longrightarrow> c_body (classes (p2 ! sf) ! snd r)"
    by (cases rule: getOrCreateServiceClass_cases)
       (auto simp: takes_class_def bodies_nth dest: getClass_Some)
qed

lemma registered_imports_cases:
  obtains (none) "registered_imports h models operationSpec sf p2 = p2"
  | (some) x where
      "registered_imports h models operationSpec sf p2 = p2[sf := (p2 ! sf)\<lparr>namedImports := x\<rparr>]"
proof (cases "potentialImportsToInclude (extractContentSchema h ''bodyArgs'' operationSpec)
                (extractResponseType h operationSpec) = []")
  case True
  then show ?thesis by (intro none) (simp add: registered_imports_def)
next
  case False
  then show ?thesis by (intro some) (simp add: registered_imports_def)
qed

lemma registered_imports_step:
  assumes "sf < length p2"
  shows "length (registered_imports h models operationSpec sf p2) = length p2"
    and "classes (registered_imports h models operationSpec sf p2 ! f) = classes (p2 ! f)"
    and "getSourceFile (registered_imports h models operationSpec sf p2) F = getSourceFile p2 F"
    and "methods_at (registered_imports h models operationSpec sf p2) r = methods_at p2 r"
    and "class_methods (registered_imports h models operationSpec sf p2) F N
           = class_methods p2 F N"
    and "service_class p2 F N = Some r
           \<Longrightarrow> service_class (registered_imports h models operationSpec sf p2) F N = Some r"
    and "bodies p2 \<Longrightarrow> bodies (registered_imports h models operationSpec sf p2)"
proof -
  show "length (registered_imports h models operationSpec sf p2) = length p2"
    by (cases rule: registered_imports_cases [of h models operationSpec sf p2]) simp_all
  show "classes (registered_imports h models operationSpec sf p2 ! f) = classes (p2 ! f)"
    using assms
    by (cases rule: registered_imports_cases [of h models operationSpec sf p2])
       (simp_all add: nth_list_update)
  show "getSourceFile (registered_imports h models operationSpec sf p2) F = getSourceFile p2 F"
    using assms
    by (cases rule: registered_imports_cases [of h models operationSpec sf p2])
       (simp_all add: getSourceFile_update)
  show "methods_at (registered_imports h models operationSpec sf p2) r = methods_at p2 r"
    using assms
    by (cases rule: registered_imports_cases [of h models operationSpec sf p2])
       (simp_all add: methods_at_imports)
  show "class_methods (registered_imports h models operationSpec sf p2) F N
           = class_methods p2 F N"
    using assms
    by (cases rule: registered_imports_cases [of h models operationSpec sf p2])
       (simp_all add: class_methods_imports)
  show "service_class p2 F N = Some r
           \<Longrightarrow> service_class (registered_imports h models operationSpec sf p2) F N = Some r"
    using assms
    by (cases rule: registered_imports_cases [of h models operationSpec sf p2])
       (simp_all add: service_class_imports)
  show "bodies p2 \<Longrightarrow> bodies (registered_imports h models operationSpec sf p2)"
    using assms
    by (cases rule: registered_imports_cases [of h models operationSpec sf p2])
       (simp_all add: bodies_imports)
qed

lemma addMethod_Inr:
  "addMethod e r m p = Inr p' \<longleftrightarrow>
     c_body (classes (p ! fst r) ! snd r) \<and> method_text e m
     \<and> p' = p[fst r := (p ! fst r)\<lparr>classes := (classes (p ! fst r))
                [snd r := (classes (p ! fst r) ! snd r)
                   \<lparr>methods := methods (classes (p ! fst r) ! snd r) @ [m]\<rparr>]\<rparr>]"
  by (auto simp: addMethod_def Let_def)

lemma serviceFromPathSpecification_Some:
  assumes "serviceFromPathSpecification h rawPath method u models pathSpec rootDir project
             = (None, project')"
  shows "\<exists>operationSpec. map_of pathSpec method = Some operationSpec"
  using assms by (auto simp: serviceFromPathSpecification_def split: option.splits)

lemma serviceFromPathSpecification_unfold:
  assumes "map_of pathSpec method = Some operationSpec"
    and "getOrCreateServiceFile project (service_path h rootDir operationSpec) = (sf, p1)"
  shows "serviceFromPathSpecification h rawPath method u models pathSpec rootDir project =
           (case getOrCreateServiceClass (ts_morph h) (service_name operationSpec) sf u p1 of
              Inl e \<Rightarrow> (Some e, p1)
            | Inr (r, p2) \<Rightarrow>
                (case addMethod (ts_morph h) r (generated_method h rawPath method operationSpec)
                        (registered_imports h models operationSpec sf p2) of
                   Inl e \<Rightarrow> (Some e, registered_imports h models operationSpec sf p2)
                 | Inr p4 \<Rightarrow> (None, p4)))"
proof -
  obtain N0 methodName where
    dat: "dataFromOperationId (operationId operationSpec) = (N0, methodName)"
    by (cases "dataFromOperationId (operationId operationSpec)")
  have N0: "service_name operationSpec = N0" and mn: "snd (dataFromOperationId (operationId operationSpec)) = methodName"
    using dat by (simp_all add: service_name_def)
  have F0: "path_join h [rootDir, ''services'', N0 @ ''.ts''] = service_path h rootDir operationSpec"
    by (simp add: service_path_def N0)
  show ?thesis
    using assms
    by (simp add: serviceFromPathSpecification_def dat F0 Let_def N0 generated_method_def
        registered_imports_def split: sum.splits prod.splits)
qed

lemma serviceFromPathSpecification_steps:
  assumes "serviceFromPathSpecification h rawPath method u models pathSpec rootDir project
             = (None, project')"
    and "map_of pathSpec method = Some operationSpec"
  obtains sf p1 r p2 where
    "getOrCreateServiceFile project (service_path h rootDir operationSpec) = (sf, p1)"
    "getOrCreateServiceClass (ts_morph h) (service_name operationSpec) sf u p1 = Inr (r, p2)"
    "addMethod (ts_morph h) r (generated_method h rawPath method operationSpec)
       (registered_imports h models operationSpec sf p2) = Inr project'"
proof -
  obtain sf p1 where
    fl: "getOrCreateServiceFile project (service_path h rootDir operationSpec) = (sf, p1)"
    by (cases "getOrCreateServiceFile project (service_path h rootDir operationSpec)")
  note u = serviceFromPathSpecification_unfold [OF assms(2) fl, of rawPath u models]
  from assms(1) [unfolded u] obtain r p2 where
    cls: "getOrCreateServiceClass (ts_morph h) (service_name operationSpec) sf u p1 = Inr (r, p2)"
    by (auto split: sum.splits)
  from assms(1) [unfolded u cls] have
    "addMethod (ts_morph h) r (generated_method h rawPath method operationSpec)
       (registered_imports h models operationSpec sf p2) = Inr project'"
    by (auto split: sum.splits)
  with fl cls show thesis by (rule that)
qed

section \<open>One call of \<open>serviceFromPathSpecification\<close>\<close>

lemma serviceFromPathSpecification_at:
  assumes "serviceFromPathSpecification h rawPath method u models pathSpec rootDir project
             = (None, project')"
    and "map_of pathSpec method = Some operationSpec"
  shows "\<exists>r. getSourceFile project' (service_path h rootDir operationSpec) = Some (fst r)
           \<and> snd r < length (classes (project' ! fst r))
           \<and> (\<forall>r'. methods_at project' r' =
                  methods_at project r'
                  @ (if r' = r then [generated_method h rawPath method operationSpec] else []))"
proof -
  let ?F0 = "service_path h rootDir operationSpec" and ?N0 = "service_name operationSpec"
  let ?m = "generated_method h rawPath method operationSpec"
  obtain sf p1 r p2 where
    fl: "getOrCreateServiceFile project ?F0 = (sf, p1)"
    and cls: "getOrCreateServiceClass (ts_morph h) ?N0 sf u p1 = Inr (r, p2)"
    and add: "addMethod (ts_morph h) r ?m (registered_imports h models operationSpec sf p2)
                = Inr project'"
    by (rule serviceFromPathSpecification_steps [OF assms])
  define p3 where "p3 = registered_imports h models operationSpec sf p2"
  note f1 = getOrCreateServiceFile_step [OF fl]
  note f2 = getOrCreateServiceClass_step [OF f1(1) cls]
  have g2: "getSourceFile p2 ?F0 = Some sf" by (simp add: f2(3) f1(1))
  then have sf2: "sf < length p2" "sf_path (p2 ! sf) = ?F0" using getSourceFile_Some by blast+
  note f3 = registered_imports_step [OF sf2(1), where h = h and models = models and operationSpec = operationSpec,
    folded p3_def]
  have sf3: "sf < length p3" using sf2 f3(1) by simp
  have c3: "snd r < length (classes (p3 ! sf))" using f2(2) f3(2) by simp
  have r: "r = (sf, snd r)" using f2(1) by (cases r) simp
  from add [folded p3_def] have p': "project' = p3[sf := (p3 ! sf)\<lparr>classes := (classes (p3 ! sf))
                [snd r := (classes (p3 ! sf) ! snd r)
                   \<lparr>methods := methods (classes (p3 ! sf) ! snd r) @ [?m]\<rparr>]\<rparr>]"
    by (simp add: addMethod_Inr f2(1))
  have "getSourceFile project' ?F0 = getSourceFile p3 ?F0"
    unfolding p' using sf3 by (intro getSourceFile_update) auto
  then have 1: "getSourceFile project' ?F0 = Some (fst r)"
    by (simp add: f3(3) g2 f2(1))
  have 2: "snd r < length (classes (project' ! fst r))"
    using sf3 c3 by (simp add: p' f2(1))
  have 3: "methods_at project' r' = methods_at project r' @ (if r' = r then [?m] else [])" for r'
  proof -
    have "methods_at project' r' = methods_at p3 r' @ (if r' = (sf, snd r) then [?m] else [])"
      unfolding p' using sf3 c3 by (rule methods_at_addMethod)
    then show ?thesis using r by (simp add: f3(4) f2(4) f1(2))
  qed
  from 1 2 3 show ?thesis by blast
qed

lemma serviceFromPathSpecification_adds:
  assumes "serviceFromPathSpecification h rawPath method u models pathSpec rootDir project
             = (None, project')"
    and "map_of pathSpec method = Some operationSpec"
    and "reads_back (ts_morph h) (service_name operationSpec)"
  shows "class_methods project' F N =
           class_methods project F N @
           (if F = service_path h rootDir operationSpec \<and> N = service_name operationSpec
            then [generated_method h rawPath method operationSpec] else [])"
    and "\<exists>r. service_class project' (service_path h rootDir operationSpec)
               (service_name operationSpec) = Some r"
proof -
  let ?F0 = "service_path h rootDir operationSpec" and ?N0 = "service_name operationSpec"
  let ?m = "generated_method h rawPath method operationSpec"
  obtain sf p1 r p2 where
    fl: "getOrCreateServiceFile project ?F0 = (sf, p1)"
    and cls: "getOrCreateServiceClass (ts_morph h) ?N0 sf u p1 = Inr (r, p2)"
    and add: "addMethod (ts_morph h) r ?m (registered_imports h models operationSpec sf p2)
                = Inr project'"
    by (rule serviceFromPathSpecification_steps [OF assms(1,2)])
  define p3 where "p3 = registered_imports h models operationSpec sf p2"
  note f1 = getOrCreateServiceFile_step [OF fl]
  note f2 = getOrCreateServiceClass_step [OF f1(1) cls]
  have g2: "getSourceFile p2 ?F0 = Some sf" by (simp add: f2(3) f1(1))
  then have sf2: "sf < length p2" "sf_path (p2 ! sf) = ?F0" using getSourceFile_Some by blast+
  note f3 = registered_imports_step [OF sf2(1), where h = h and models = models and operationSpec = operationSpec,
    folded p3_def]
  have sf3: "sf < length p3" using sf2 f3(1) by simp
  have c3: "snd r < length (classes (p3 ! sf))" using f2(2) f3(2) by simp
  have g3: "getSourceFile p3 ?F0 = Some sf" by (simp add: f3(3) g2)
  have cl2: "getClass (p2 ! sf) ?N0 = Some (snd r)" using assms(3) by (rule f2(8))
  have cl3: "getClass (p3 ! sf) N = getClass (p2 ! sf) N" for N
    by (simp add: getClass_def f3(2))
  have iff: "getSourceFile p3 F = Some sf \<longleftrightarrow> F = ?F0"
    using g3 by (rule getSourceFile_iff)
  have inj: "getClass (p3 ! sf) N = Some (snd r) \<longleftrightarrow> N = ?N0"
    using cl2 cl3 getClass_Some [of "p3 ! sf" N "snd r"] getClass_Some [of "p3 ! sf" ?N0 "snd r"]
    by auto
  from add [folded p3_def] have p': "project' = p3[sf := (p3 ! sf)\<lparr>classes := (classes (p3 ! sf))
                [snd r := (classes (p3 ! sf) ! snd r)
                   \<lparr>methods := methods (classes (p3 ! sf) ! snd r) @ [?m]\<rparr>]\<rparr>]"
    by (simp add: addMethod_Inr f2(1))
  have "class_methods project' F N =
      class_methods p3 F N
      @ (if getSourceFile p3 F = Some sf \<and> getClass (p3 ! sf) N = Some (snd r) then [?m] else [])"
    unfolding p' using sf3 c3 by (rule class_methods_addMethod)
  then show "class_methods project' F N =
           class_methods project F N @ (if F = ?F0 \<and> N = ?N0 then [?m] else [])"
    by (simp add: iff inj f3(5) f2(5) f1(3))
  have "service_class p3 ?F0 ?N0 = Some (sf, snd r)"
    using g3 cl2 cl3 by (simp add: service_class_Some)
  then have "service_class project' ?F0 ?N0 = Some (sf, snd r)"
    unfolding p' using sf3 c3 by (intro service_class_addMethod)
  then show "\<exists>r. service_class project' ?F0 ?N0 = Some r" by blast
qed


lemma serviceFromPathSpecification_imports:
  assumes "serviceFromPathSpecification h rawPath method u models pathSpec rootDir project
             = (None, project')"
    and "map_of pathSpec method = Some operationSpec"
  shows "file_imports project' F =
           (if F = service_path h rootDir operationSpec
               \<and> potentialImportsToInclude (extractContentSchema h ''bodyArgs'' operationSpec)
                    (extractResponseType h operationSpec) \<noteq> []
            then includeOrCreateNamedImport h models
                   (potentialImportsToInclude (extractContentSchema h ''bodyArgs'' operationSpec)
                      (extractResponseType h operationSpec))
                   (file_imports project F)
            else file_imports project F)"
proof -
  let ?F0 = "service_path h rootDir operationSpec" and ?N0 = "service_name operationSpec"
  let ?m = "generated_method h rawPath method operationSpec"
  let ?names = "potentialImportsToInclude (extractContentSchema h ''bodyArgs'' operationSpec)
                (extractResponseType h operationSpec)"
  obtain sf p1 r p2 where
    fl: "getOrCreateServiceFile project ?F0 = (sf, p1)"
    and cls: "getOrCreateServiceClass (ts_morph h) ?N0 sf u p1 = Inr (r, p2)"
    and add: "addMethod (ts_morph h) r ?m (registered_imports h models operationSpec sf p2)
                = Inr project'"
    by (rule serviceFromPathSpecification_steps [OF assms])
  define p3 where "p3 = registered_imports h models operationSpec sf p2"
  have p3: "p3 = (if ?names \<noteq> []
           then p2[sf := (p2 ! sf)\<lparr>namedImports :=
                   includeOrCreateNamedImport h models ?names (namedImports (p2 ! sf))\<rparr>]
           else p2)"
    by (simp add: p3_def registered_imports_def Let_def)
  note f1 = getOrCreateServiceFile_step [OF fl]
  note f2 = getOrCreateServiceClass_step [OF f1(1) cls]
  have g2: "getSourceFile p2 ?F0 = Some sf" by (simp add: f2(3) f1(1))
  then have sf2: "sf < length p2" "sf_path (p2 ! sf) = ?F0" using getSourceFile_Some by blast+
  note f3 = registered_imports_step [OF sf2(1), where h = h and models = models and operationSpec = operationSpec,
    folded p3_def]
  have sf3: "sf < length p3" using sf2 f3(1) by simp
  have iff2: "getSourceFile p2 F = Some sf \<longleftrightarrow> F = ?F0"
    using g2 by (rule getSourceFile_iff)
  have i3: "file_imports p3 F =
      (if F = ?F0 \<and> ?names \<noteq> []
       then includeOrCreateNamedImport h models ?names (file_imports p2 F)
       else file_imports p2 F)"
    using sf2 g2 by (auto simp: p3 file_imports_update iff2 file_imports_found [OF g2])
  from add [folded p3_def] have p': "project' = p3[sf := (p3 ! sf)\<lparr>classes := (classes (p3 ! sf))
                [snd r := (classes (p3 ! sf) ! snd r)
                   \<lparr>methods := methods (classes (p3 ! sf) ! snd r) @ [?m]\<rparr>]\<rparr>]"
    by (simp add: addMethod_Inr f2(1))
  have i4: "file_imports project' F = file_imports p3 F"
    unfolding p' using sf3 by (intro file_imports_same) auto
  show ?thesis by (simp add: i4 i3 f2(7) f1(5))
qed


lemma getOrCreateServiceClass_Inr:
  assumes "array_includes (typeAliases u) ''Configuration''" and "takes_class e N0"
  shows "\<exists>r p2. getOrCreateServiceClass e N0 sf u p1 = Inr (r, p2)"
  using assms
  by (auto simp: getOrCreateServiceClass_def getTypeAliasOrThrow_def addClass_def takes_class_def
      split: option.splits)

lemma serviceFromPathSpecification_no_error:
  assumes "map_of pathSpec method = Some operationSpec"
    and "array_includes (typeAliases u) ''Configuration''"
    and "takes_class (ts_morph h) (service_name operationSpec)"
    and "method_text (ts_morph h) (generated_method h rawPath method operationSpec)"
    and "bodies project"
  shows "fst (serviceFromPathSpecification h rawPath method u models pathSpec rootDir project) = None"
proof -
  let ?F0 = "service_path h rootDir operationSpec" and ?N0 = "service_name operationSpec"
  let ?m = "generated_method h rawPath method operationSpec"
  obtain sf p1 where fl: "getOrCreateServiceFile project ?F0 = (sf, p1)"
    by (cases "getOrCreateServiceFile project ?F0")
  from getOrCreateServiceClass_Inr [OF assms(2,3)] obtain r p2 where
    cls: "getOrCreateServiceClass (ts_morph h) ?N0 sf u p1 = Inr (r, p2)" by blast
  define p3 where "p3 = registered_imports h models operationSpec sf p2"
  note f1 = getOrCreateServiceFile_step [OF fl]
  note f2 = getOrCreateServiceClass_step [OF f1(1) cls]
  have g2: "getSourceFile p2 ?F0 = Some sf" by (simp add: f2(3) f1(1))
  then have sf2: "sf < length p2" using getSourceFile_Some by blast
  note f3 = registered_imports_step [OF sf2, where h = h and models = models and operationSpec = operationSpec,
    folded p3_def]
  have "bodies p1" using assms(5) by (simp add: f1(6))
  then have "c_body (classes (p2 ! sf) ! snd r)" using assms(3) by (rule f2(10))
  then have "c_body (classes (p3 ! fst r) ! snd r)" by (simp add: f3(2) f2(1))
  with assms(4) obtain p4 where "addMethod (ts_morph h) r ?m p3 = Inr p4"
    by (simp add: addMethod_Inr)
  then show ?thesis
    by (simp add: serviceFromPathSpecification_unfold [OF assms(1) fl] cls p3_def)
qed


lemma serviceFromPathSpecification_without_imports:
  assumes "potentialImportsToInclude (extractContentSchema h ''bodyArgs'' operationSpec)
             (extractResponseType h operationSpec) = []"
    and "map_of pathSpec verb = Some operationSpec"
  shows "serviceFromPathSpecification (h\<lparr>includeOrCreateNamedImport := g\<rparr>) rawPath verb u models
           pathSpec rootDir project
         = serviceFromPathSpecification h rawPath verb u models pathSpec rootDir project"
  using assms
  by (simp add: serviceFromPathSpecification_def Let_def method_statements_def
      split: prod.splits sum.splits)

section \<open>The method of an operation\<close>

lemma groupBy_filter:
  "groupBy f xs k = (if filter (\<lambda>x. f x = k) xs = [] then None else Some (filter (\<lambda>x. f x = k) xs))"
  by (simp add: groupBy_def Let_def)

lemma rejectFalsy_map_Some [simp]: "rejectFalsy (map (\<lambda>x. Some (f x)) xs) = map f xs"
  by (induction xs) auto

lemma method_statements_explicit:
  "method_statements h rawPath method pt bodyParams (groupBy p_in ps) =
     [destructWriter False ''this.configuration'' [''baseUrl'', ''adapter'']]
     @ (if filter (\<lambda>p. p_in p = ''path'') ps = [] then []
        else [destructWriter True ''props'' (map p_name (filter (\<lambda>p. p_in p = ''path'') ps))])
     @ [newLine,
        returnStatement
          \<lparr>callName = ''adapter'', parametricType = pt,
           params =
             [Object
                [(''url'', printStringTemplate h (''${baseUrl}'' @ pathArgsToTemplate h rawPath)),
                 (''method'', Text ([CHR 0x27] @ toUpperCase method @ [CHR 0x27])),
                 (''queryParams'',
                  if filter (\<lambda>p. p_in p = ''query'') ps = [] then Text ''undefined''
                  else Object (listToObject (filter (\<lambda>p. p_in p = ''query'') ps)
                         (\<lambda>item. (p_name item,
                                   Text (''props['' @ [CHR 0x27] @ p_name item @ [CHR 0x27]
                                         @ '']''))))),
                 (''bodyArgs'',
                  case bodyParams of
                    Some b \<Rightarrow> Text (''props['' @ [CHR 0x27] @ contentName b @ [CHR 0x27] @ '']'')
                  | None \<Rightarrow> Text ''undefined'')]]\<rparr>]"
  by (simp add: method_statements_def groupBy_filter)

lemma method_parameters_explicit:
  "method_parameters bodyParams ps =
     (if bodyParams = None \<and> ps = [] then []
      else [\<lparr>pd_name = ''props'',
             objectType =
               (case bodyParams of
                  None \<Rightarrow> []
                | Some b \<Rightarrow>
                    [\<lparr>ps_name = contentName b, ps_type = openAPISpecTreeSpecWriter (bp_schema b),
                      hasQuestionToken = (\<not> bp_required b)\<rparr>])
               @ map (\<lambda>p. \<lparr>ps_name = p_name p, ps_type = sanitizeType (p_schema_type p),
                            hasQuestionToken = (\<not> p_required p)\<rparr>) ps\<rparr>])"
  by (cases bodyParams) (auto simp: method_parameters_def)

lemma filter_removeAll_other: "\<not> P p \<Longrightarrow> filter P (removeAll p ps) = filter P ps"
  by (induction ps) auto

section \<open>The properties of a JavaScript object\<close>

lemma map_fst_replace:
  "map fst (map (\<lambda>e. if fst e = k then (k, v) else e) obj) = map fst obj"
  by (induction obj) auto

lemma takeWhile_dropWhile_set:
  "set (takeWhile P xs) \<union> set (dropWhile P xs) = set xs"
  by (metis set_append takeWhile_dropWhile_id)

lemma set_property_keys:
  "fst ` set (set_property obj k v) = insert k (fst ` set obj)"
proof (cases "k \<in> set (map fst obj)")
  case True
  then have "set_property obj k v = map (\<lambda>e. if fst e = k then (k, v) else e) obj"
    by (simp add: set_property_def)
  then have "map fst (set_property obj k v) = map fst obj"
    by (simp only: map_fst_replace)
  then have "set (map fst (set_property obj k v)) = set (map fst obj)" by simp
  with True show ?thesis by auto
next
  case False
  then show ?thesis
    using takeWhile_dropWhile_set [of "index_before k" obj]
    by (auto simp: set_property_def image_Un [symmetric] simp del: image_Un)
qed

lemma set_property_distinct:
  assumes "distinct (map fst obj)"
  shows "distinct (map fst (set_property obj k v))"
proof (cases "k \<in> set (map fst obj)")
  case True
  then have "set_property obj k v = map (\<lambda>e. if fst e = k then (k, v) else e) obj"
    by (simp add: set_property_def)
  then have "map fst (set_property obj k v) = map fst obj"
    by (simp only: map_fst_replace)
  with assms show ?thesis by simp
next
  case False
  have d: "distinct (map fst (takeWhile (index_before k) obj)
                     @ map fst (dropWhile (index_before k) obj))"
    by (metis assms map_append takeWhile_dropWhile_id)
  have "k \<notin> fst ` (set (takeWhile (index_before k) obj) \<union> set (dropWhile (index_before k) obj))"
    using False by (simp only: takeWhile_dropWhile_set) simp
  with d False assms show ?thesis by (auto simp: set_property_def)
qed

lemma set_property_values:
  assumes "\<forall>e \<in> set obj. snd e = g (fst e)" and "v = g k"
  shows "\<forall>e \<in> set (set_property obj k v). snd e = g (fst e)"
  using assms
  by (auto simp: set_property_def dest: set_takeWhileD set_dropWhileD)

lemma set_property_append:
  assumes "k \<notin> set (map fst obj)" and "\<not> array_index k"
  shows "set_property obj k v = obj @ [(k, v)]"
  using assms by (simp add: set_property_def)

lemma fold_set_property_keys:
  "fst ` set (fold (\<lambda>x obj. set_property obj (fst (f x)) (snd (f x))) xs acc)
     = fst ` set acc \<union> (\<lambda>x. fst (f x)) ` set xs"
  by (induction xs arbitrary: acc) (simp_all add: set_property_keys)

lemma fold_set_property_distinct:
  "distinct (map fst acc) \<Longrightarrow>
   distinct (map fst (fold (\<lambda>x obj. set_property obj (fst (f x)) (snd (f x))) xs acc))"
  by (induction xs arbitrary: acc) (simp_all add: set_property_distinct)

lemma fold_set_property_values:
  assumes "\<forall>e \<in> set acc. snd e = g (fst e)" and "\<forall>x \<in> set xs. snd (f x) = g (fst (f x))"
  shows "\<forall>e \<in> set (fold (\<lambda>x obj. set_property obj (fst (f x)) (snd (f x))) xs acc).
           snd e = g (fst e)"
  using assms
proof (induction xs arbitrary: acc)
  case Nil
  show ?case unfolding fold_simps id_apply by (rule Nil.prems(1))
next
  case (Cons x xs)
  have 0: "snd (f x) = g (fst (f x))" using Cons.prems(2) by simp
  have 1: "\<forall>e \<in> set (set_property acc (fst (f x)) (snd (f x))). snd e = g (fst e)"
    using Cons.prems(1) 0 by (rule set_property_values [where g = g])
  have 2: "\<forall>y \<in> set xs. snd (f y) = g (fst (f y))"
    using Cons.prems(2) by simp
  show ?case unfolding fold_simps o_apply using 1 2 by (rule Cons.IH)
qed

lemma fold_set_property_append:
  assumes "distinct (map fst acc @ map (\<lambda>x. fst (f x)) xs)"
    and "\<forall>x \<in> set xs. \<not> array_index (fst (f x))"
  shows "fold (\<lambda>x obj. set_property obj (fst (f x)) (snd (f x))) xs acc = acc @ map f xs"
  using assms
proof (induction xs arbitrary: acc)
  case Nil
  then show ?case by simp
next
  case (Cons x xs)
  have s: "set_property acc (fst (f x)) (snd (f x)) = acc @ [f x]"
    using Cons.prems by (subst set_property_append) auto
  have "fold (\<lambda>x obj. set_property obj (fst (f x)) (snd (f x))) xs (acc @ [f x])
      = (acc @ [f x]) @ map f xs"
    using Cons.prems by (intro Cons.IH) auto
  then show ?case by (simp add: s)
qed

lemma listToObject_keys:
  "set (map fst (listToObject xs f)) = set (map (\<lambda>x. fst (f x)) xs)"
  "distinct (map fst (listToObject xs f))"
  using fold_set_property_keys [of f xs "[]"] fold_set_property_distinct [of "[]" f xs]
  by (simp_all add: listToObject_def)

lemma listToObject_values:
  assumes "\<forall>x \<in> set xs. snd (f x) = g (fst (f x))"
  shows "\<forall>e \<in> set (listToObject xs f). snd e = g (fst e)"
  using fold_set_property_values [of "[]" g xs f] assms by (simp add: listToObject_def)

lemma listToObject_map:
  assumes "distinct (map (\<lambda>x. fst (f x)) xs)" and "\<forall>x \<in> set xs. \<not> array_index (fst (f x))"
  shows "listToObject xs f = map f xs"
  using fold_set_property_append [of "[]" f xs] assms by (simp add: listToObject_def)

section \<open>Splitting and replacing\<close>

lemma split_nonempty: "split c s \<noteq> []"
  by (induction s) (auto split: list.splits)

lemma replace_absent:
  assumes "pat \<noteq> []" and "\<nexists>P R. s = P @ pat @ R"
  shows "replace pat rep s = s"
  using assms(2)
proof (induction s)
  case Nil
  with assms(1) show ?case by simp
next
  case (Cons c cs)
  have "take (length pat) (c # cs) \<noteq> pat"
  proof
    assume "take (length pat) (c # cs) = pat"
    then have "c # cs = [] @ pat @ drop (length pat) (c # cs)"
      by (metis append_Nil append_take_drop_id)
    with Cons.prems show False by blast
  qed
  moreover have "\<nexists>P R. cs = P @ pat @ R"
  proof
    assume "\<exists>P R. cs = P @ pat @ R"
    then obtain P R where "cs = P @ pat @ R" by blast
    then have "c # cs = (c # P) @ pat @ R" by simp
    with Cons.prems show False by blast
  qed
  ultimately show ?case using Cons.IH by simp
qed

lemma replace_prefix: "replace pat rep (pat @ R) = rep @ R"
proof (cases "pat @ R")
  case Nil
  then show ?thesis by simp
next
  case (Cons a list)
  have t: "take (length pat) (a # list) = pat" and d: "drop (length pat) (a # list) = R"
    unfolding Cons [symmetric] by simp_all
  have "replace pat rep (a # list) = rep @ R"
    by (subst replace.simps) (simp only: t d simp_thms if_True)
  then show ?thesis by (simp only: Cons)
qed

lemma replace_leftmost:
  assumes "s = P @ pat @ R"
    and "\<And>P' R'. s = P' @ pat @ R' \<Longrightarrow> length P \<le> length P'"
  shows "replace pat rep s = P @ rep @ R"
  using assms
proof (induction P arbitrary: s)
  case Nil
  then show ?case by (simp add: replace_prefix)
next
  case (Cons c P)
  then have s: "s = c # (P @ pat @ R)" by simp
  have "take (length pat) s \<noteq> pat"
  proof
    assume "take (length pat) s = pat"
    then have "s = [] @ pat @ drop (length pat) s"
      by (metis append_Nil append_take_drop_id)
    from Cons.prems(2) [OF this] show False by simp
  qed
  moreover have "replace pat rep (P @ pat @ R) = P @ rep @ R"
  proof (rule Cons.IH [OF refl])
    fix P' R' assume "P @ pat @ R = P' @ pat @ R'"
    then have "s = (c # P') @ pat @ R'" using s by simp
    from Cons.prems(2) [OF this] show "length P \<le> length P'" by simp
  qed
  ultimately show ?case using s by simp
qed

section \<open>The loops\<close>

lemma forEach_append:
  "forEach f (xs @ ys) p =
     (case forEach f xs p of (Some e, p') \<Rightarrow> (Some e, p') | (None, p') \<Rightarrow> forEach f ys p')"
  by (induction xs arbitrary: p) (auto split: prod.splits option.splits)

lemma forEach_append_None:
  "forEach f (xs @ ys) p = (None, p'') \<longleftrightarrow>
     (\<exists>p'. forEach f xs p = (None, p') \<and> forEach f ys p' = (None, p''))"
  by (auto simp: forEach_append split: prod.splits option.splits)

lemma forEach_map: "forEach f (map g xs) p = forEach (\<lambda>x. f (g x)) xs p"
  by (induction xs arbitrary: p) (auto split: prod.splits option.splits)

lemma forEach_invariant:
  assumes "forEach f xs p = (None, p')" and "I p"
    and "\<And>x q q'. x \<in> set xs \<Longrightarrow> I q \<Longrightarrow> f x q = (None, q') \<Longrightarrow> I q'"
  shows "I p'"
  using assms
proof (induction xs arbitrary: p)
  case Nil
  then show ?case by simp
next
  case (Cons x xs)
  from Cons.prems(1) obtain q where q: "f x p = (None, q)" "forEach f xs q = (None, p')"
    by (auto split: prod.splits option.splits)
  have "I q" by (rule Cons.prems(3) [OF _ Cons.prems(2) q(1)]) simp
  then show ?case by (rule Cons.IH [OF q(2)]) (auto intro: Cons.prems(3))
qed


section \<open>Registering imports\<close>

lemma includeOrCreateNamedImport_spec_Cons:
  "includeOrCreateNamedImport_spec m (n # ns) imps =
     includeOrCreateNamedImport_spec m ns (if (m, n) \<in> set imps then imps else imps @ [(m, n)])"
  by (simp add: includeOrCreateNamedImport_spec_def)

lemma includeOrCreateNamedImport_spec_set:
  "set (includeOrCreateNamedImport_spec m ns imps) = set imps \<union> (\<lambda>n. (m, n)) ` set ns"
  by (induction ns arbitrary: imps)
     (auto simp: includeOrCreateNamedImport_spec_Cons includeOrCreateNamedImport_spec_def)

lemma includeOrCreateNamedImport_spec_distinct:
  "distinct imps \<Longrightarrow> distinct (includeOrCreateNamedImport_spec m ns imps)"
  by (induction ns arbitrary: imps)
     (auto simp: includeOrCreateNamedImport_spec_Cons includeOrCreateNamedImport_spec_def)

lemma includeOrCreateNamedImport_spec_present:
  "(\<And>n. n \<in> set ns \<Longrightarrow> (m, n) \<in> set imps) \<Longrightarrow> includeOrCreateNamedImport_spec m ns imps = imps"
  by (induction ns arbitrary: imps)
     (auto simp: includeOrCreateNamedImport_spec_Cons includeOrCreateNamedImport_spec_def)

lemma includeOrCreateNamedImport_spec_idem:
  "includeOrCreateNamedImport_spec m ns (includeOrCreateNamedImport_spec m ns imps)
     = includeOrCreateNamedImport_spec m ns imps"
  by (rule includeOrCreateNamedImport_spec_present)
     (simp add: includeOrCreateNamedImport_spec_set)

lemma distinct_one_entry:
  "distinct xs \<Longrightarrow> x \<in> set xs \<Longrightarrow> length (filter (\<lambda>e. e = x) xs) = 1"
  by (induction xs) (auto simp: filter_empty_conv)

lemma potentialImportsToInclude_empty:
  "potentialImportsToInclude b r \<noteq> [] \<longleftrightarrow>
     (\<exists>n. n \<noteq> [] \<and> (Option.bind b bp_imports = Some n \<or> Option.bind r typeName = Some n))"
  by (cases "Option.bind b bp_imports"; cases "Option.bind r typeName")
     (auto simp: potentialImportsToInclude_def falsy_string_def)

section \<open>The pass as a list of operations\<close>

lemma serviceFromOperation_triple [simp]:
  "serviceFromOperation h rootDir u models (rawPath, method, pathSpec) =
     serviceFromPathSpecification h rawPath method u models pathSpec rootDir"
  by (rule ext) (simp add: serviceFromOperation_def)

lemma generateServices_path_known:
  assumes "set (keys (snd entry)) \<subseteq> set knownOperations"
  shows "generateServices_path h rootDir u models entry p =
           forEach (serviceFromOperation h rootDir u models) (path_operations entry) p"
proof -
  have "filter (\<lambda>operation. \<not> array_includes knownOperations operation) (keys (snd entry)) = []"
    using assms by (auto simp: filter_empty_conv array_includes_def)
  then show ?thesis
    by (cases entry)
       (simp add: generateServices_path_def path_operations_def forEach_map)
qed

lemma generateServices_path_unknown:
  assumes "\<not> set (keys pathSpec) \<subseteq> set knownOperations"
  shows "generateServices_path h rootDir u models (rawPath, pathSpec) p =
           (Some (Error (''Unknown operation(s) found for '' @ rawPath @ '': ''
              @ array_toString (filter (\<lambda>v. v \<notin> set knownOperations) (keys pathSpec)))), p)"
proof -
  have "filter (\<lambda>operation. \<not> array_includes knownOperations operation) (keys pathSpec) \<noteq> []"
    using assms by (auto simp: filter_empty_conv array_includes_def)
  then show ?thesis
    by (simp add: generateServices_path_def array_includes_def)
qed

lemma generateServices_path_None:
  assumes "generateServices_path h rootDir u models entry p = (None, p')"
  shows "forEach (serviceFromOperation h rootDir u models) (path_operations entry) p = (None, p')"
proof (cases "set (keys (snd entry)) \<subseteq> set knownOperations")
  case True
  with assms show ?thesis by (simp add: generateServices_path_known)
next
  case False
  with assms show ?thesis
    by (cases entry) (simp add: generateServices_path_unknown)
qed

lemma generateServices_operations:
  assumes "generateServices h rootDir project models u spec_paths = (None, project')"
  shows "forEach (serviceFromOperation h rootDir u models) (operations_of spec_paths) project
           = (None, project')"
proof -
  have "forEach (generateServices_path h rootDir u models) es p = (None, p') \<Longrightarrow>
        forEach (serviceFromOperation h rootDir u models) (concat (map path_operations es)) p
          = (None, p')" for es p p'
  proof (induction es arbitrary: p)
    case Nil
    then show ?case by simp
  next
    case (Cons e es)
    from Cons.prems obtain q where q: "generateServices_path h rootDir u models e p = (None, q)"
      "forEach (generateServices_path h rootDir u models) es q = (None, p')"
      by (auto split: prod.splits option.splits)
    from generateServices_path_None [OF q(1)] Cons.IH [OF q(2)]
    show ?case by (auto simp: forEach_append_None)
  qed
  with assms show ?thesis by (simp add: generateServices_def operations_of_def entries_def)
qed







lemma forEach_imports_distinct:
  assumes "forEach (serviceFromOperation h rootDir u models) ops p = (None, p')"
    and "includeOrCreateNamedImport h = includeOrCreateNamedImport_spec"
    and "\<And>F. distinct (file_imports p F)"
  shows "distinct (file_imports p' F)"
proof -
  have "\<forall>F. distinct (file_imports p' F)"
  proof (rule forEach_invariant [OF assms(1), where I = "\<lambda>p. \<forall>F. distinct (file_imports p F)"])
    show "\<forall>F. distinct (file_imports p F)" using assms(3) by simp
  next
    fix x q q'
    assume x: "serviceFromOperation h rootDir u models x q = (None, q')"
      and q: "\<forall>F. distinct (file_imports q F)"
    obtain rawPath verb pathSpec where o: "x = (rawPath, verb, pathSpec)" by (cases x)
    from x have s: "serviceFromPathSpecification h rawPath verb u models pathSpec rootDir q = (None, q')"
      by (simp add: o)
    then obtain operationSpec where op: "map_of pathSpec verb = Some operationSpec"
      using serviceFromPathSpecification_Some by blast
    show "\<forall>F. distinct (file_imports q' F)"
      using q
      by (simp add: serviceFromPathSpecification_imports [OF s op] assms(2)
          includeOrCreateNamedImport_spec_distinct)
  qed
  then show ?thesis by simp
qed




lemma path_operations_set:
  "x \<in> set (path_operations (rawPath, pathSpec)) \<Longrightarrow>
     \<exists>method operationSpec. x = (rawPath, method, pathSpec)
        \<and> map_of pathSpec method = Some operationSpec"
  by (auto simp: path_operations_def keys_def dest!: weak_map_of_SomeI)


section \<open>The examples are processed\<close>

text \<open>The two operations of the spec's examples are processed without an error.\<close>

lemma example_processed:
  "serviceFromPathSpecification spec_helpers ''/users/{id}'' ''get'' example_utils ''../models''
     [(''get'', example_operation)] ''out'' []
   = (None, snd (serviceFromPathSpecification spec_helpers ''/users/{id}'' ''get'' example_utils
        ''../models'' [(''get'', example_operation)] ''out'' []))"
proof -
  have "fst (serviceFromPathSpecification spec_helpers ''/users/{id}'' ''get'' example_utils
     ''../models'' [(''get'', example_operation)] ''out''
     ([] :: (string, string) project)) = None"
    by code_simp
  then show ?thesis by (simp add: prod_eq_iff)
qed

lemma search_processed:
  "serviceFromPathSpecification spec_helpers ''/users/search'' ''post'' example_utils ''../models''
     [(''post'', example_search)] ''out'' []
   = (None, snd (serviceFromPathSpecification spec_helpers ''/users/search'' ''post'' example_utils
        ''../models'' [(''post'', example_search)] ''out'' []))"
proof -
  have "fst (serviceFromPathSpecification spec_helpers ''/users/search'' ''post'' example_utils
     ''../models'' [(''post'', example_search)] ''out''
     ([] :: (string, string) project)) = None"
    by code_simp
  then show ?thesis by (simp add: prod_eq_iff)
qed

lemma search_names:
  "service_path spec_helpers ''out'' example_search = ''out/services/UserService.ts''"
  "service_name example_search = ''UserService''"
  by (simp_all add: service_path_def service_name_def example_search_def
      dataFromOperationId_def spec_helpers_def path_join_posix_def normalize_def)

lemma example_names:
  "service_path spec_helpers ''out'' example_operation = ''out/services/UserService.ts''"
  "service_name example_operation = ''UserService''"
  by (simp_all add: service_path_def service_name_def example_operation_def
      dataFromOperationId_def spec_helpers_def path_join_posix_def normalize_def)


lemma example_pass2:
  "fst (generateServices spec_helpers ''out'' [] ''../models'' example_utils
          [(''/users/{id}'', [(''get'', example_operation)]),
           (''/users/search'', [(''post'', example_search)])]) = None"
  by code_simp

section \<open>One operation, from the description to the class\<close>

lemma serviceFromPathSpecification_generates:
  assumes "map_of pathSpec method = Some operationSpec"
    and "array_includes (typeAliases u) ''Configuration''"
    and "takes_class (ts_morph h) (service_name operationSpec)"
    and "method_text (ts_morph h) (generated_method h rawPath method operationSpec)"
    and "bodies project"
  shows "\<exists>project' r.
           serviceFromPathSpecification h rawPath method u models pathSpec rootDir project
             = (None, project')
         \<and> service_class project' (service_path h rootDir operationSpec)
               (service_name operationSpec) = Some r
         \<and> c_name (classes (project' ! fst r) ! snd r) = Some (service_name operationSpec)
         \<and> methods_at project' r =
             class_methods project (service_path h rootDir operationSpec)
               (service_name operationSpec)
             @ [generated_method h rawPath method operationSpec]"
proof -
  let ?F0 = "service_path h rootDir operationSpec" and ?N0 = "service_name operationSpec"
  obtain project' where
    p: "serviceFromPathSpecification h rawPath method u models pathSpec rootDir project
          = (None, project')"
    using serviceFromPathSpecification_no_error [OF assms, of models rootDir]
    by (cases "serviceFromPathSpecification h rawPath method u models pathSpec rootDir project")
       simp
  have rb: "reads_back (ts_morph h) ?N0"
    using assms(3) by (simp add: takes_class_def reads_back_def)
  from serviceFromPathSpecification_adds(2) [OF p assms(1) rb] obtain r where
    r: "service_class project' ?F0 ?N0 = Some r" by blast
  then have "getClass (project' ! fst r) ?N0 = Some (snd r)"
    by (simp add: service_class_Some)
  then have n: "c_name (classes (project' ! fst r) ! snd r) = Some ?N0"
    using getClass_Some by blast
  have "methods_at project' r = class_methods project' ?F0 ?N0"
    using r by (rule service_class_methods)
  also have "\<dots> = class_methods project ?F0 ?N0 @ [generated_method h rawPath method operationSpec]"
    using serviceFromPathSpecification_adds(1) [OF p assms(1) rb, of ?F0 ?N0] by simp
  finally show ?thesis using p r n by blast
qed

lemma serviceFromPathSpecification_method_at:
  assumes "serviceFromPathSpecification h rawPath method u models pathSpec rootDir project
             = (None, project')"
    and "map_of pathSpec method = Some operationSpec"
  shows "\<exists>r. getSourceFile project' (service_path h rootDir operationSpec) = Some (fst r)
           \<and> methods_at project' r =
               methods_at project r @ [generated_method h rawPath method operationSpec]"
  using serviceFromPathSpecification_at [OF assms] by auto

section \<open>The name resolver\<close>

text \<open>
  C3, as the code has it. For every operation identifier that \<open>split\<close> cuts at \<open>_\<close>
  into exactly two segments \<open>A\<close> and \<open>B\<close>, the method name is \<open>B\<close> as it is, and the
  service name is \<open>A\<close> with the leftmost occurrence of the text \<open>Controller\<close>
  replaced by \<open>Service\<close>, wherever in \<open>A\<close> that occurrence is; \<open>A\<close> as it is when
  \<open>Controller\<close> does not occur in it.
\<close>

theorem dataFromOperationId_two_segments:
  assumes "split CHR ''_'' s = [A, B]"
  shows "snd (dataFromOperationId (Some s)) = B
       \<and> (\<forall>P R. A = P @ ''Controller'' @ R
               \<and> (\<forall>P' R'. A = P' @ ''Controller'' @ R' \<longrightarrow> length P \<le> length P')
              \<longrightarrow> fst (dataFromOperationId (Some s)) = P @ ''Service'' @ R)
       \<and> ((\<nexists>P R. A = P @ ''Controller'' @ R) \<longrightarrow> fst (dataFromOperationId (Some s)) = A)"
proof -
  have d: "dataFromOperationId (Some s) = (replace ''Controller'' ''Service'' A, B)"
    using assms by (simp add: dataFromOperationId_def)
  show ?thesis
  proof (intro conjI allI impI)
    show "snd (dataFromOperationId (Some s)) = B" by (simp only: d snd_conv)
  next
    fix P R
    assume "A = P @ ''Controller'' @ R
      \<and> (\<forall>P' R'. A = P' @ ''Controller'' @ R' \<longrightarrow> length P \<le> length P')"
    then have "replace ''Controller'' ''Service'' A = P @ ''Service'' @ R"
      using replace_leftmost [of A P "''Controller''" R "''Service''"] by blast
    then show "fst (dataFromOperationId (Some s)) = P @ ''Service'' @ R"
      by (simp only: d fst_conv)
  next
    assume "\<nexists>P R. A = P @ ''Controller'' @ R"
    then have "replace ''Controller'' ''Service'' A = A"
      using replace_absent [of "''Controller''" A "''Service''"] by blast
    then show "fst (dataFromOperationId (Some s)) = A"
      by (simp only: d fst_conv)
  qed
qed

theorem dataFromOperationId_two_segments_witness:
  "split CHR ''_'' ''UserController_getUser'' = [''UserController'', ''getUser'']
   \<and> dataFromOperationId (Some ''UserController_getUser'') = (''UserService'', ''getUser'')
   \<and> split CHR ''_'' ''Users_list'' = [''Users'', ''list'']
   \<and> dataFromOperationId (Some ''Users_list'') = (''Users'', ''list'')"
proof -
  have sp: "split CHR ''_'' ''UserController_getUser'' = [''UserController'', ''getUser'']"
    by simp
  have least: "length ''User'' \<le> length P'" if "''UserController'' = P' @ ''Controller'' @ R'" for P' R'
  proof (rule ccontr)
    assume "\<not> length ''User'' \<le> length P'"
    then have lt: "length P' < 4" by simp
    have "(P' @ ''Controller'' @ R') ! length P' = CHR ''C''" by (simp add: nth_append)
    with that have nth: "''UserController'' ! length P' = CHR ''C''" by simp
    from lt consider "length P' = 0" | "length P' = 1" | "length P' = 2" | "length P' = 3"
      by linarith
    then show False using nth by cases simp_all
  qed
  note th = dataFromOperationId_two_segments [OF sp]
  from th have m: "snd (dataFromOperationId (Some ''UserController_getUser'')) = ''getUser''"
    by blast
  from th have "''UserController'' = ''User'' @ ''Controller'' @ []
      \<and> (\<forall>P' R'. ''UserController'' = P' @ ''Controller'' @ R' \<longrightarrow> length ''User'' \<le> length P')
      \<longrightarrow> fst (dataFromOperationId (Some ''UserController_getUser'')) = ''User'' @ ''Service'' @ []"
    by blast
  moreover have "''UserController'' = ''User'' @ ''Controller'' @ []" by simp
  ultimately have "fst (dataFromOperationId (Some ''UserController_getUser''))
      = ''User'' @ ''Service'' @ []"
    using least by blast
  with m have 1: "dataFromOperationId (Some ''UserController_getUser'') = (''UserService'', ''getUser'')"
    by (simp add: prod_eq_iff)
  have sp2: "split CHR ''_'' ''Users_list'' = [''Users'', ''list'']" by simp
  have absent: "\<nexists>P R. ''Users'' = P @ ''Controller'' @ R"
  proof
    assume "\<exists>P R. ''Users'' = P @ ''Controller'' @ R"
    then obtain P R where "''Users'' = P @ ''Controller'' @ R" by blast
    then have "length ''Users'' = length (P @ ''Controller'' @ R)" by (rule arg_cong)
    then show False by simp
  qed
  note th2 = dataFromOperationId_two_segments [OF sp2]
  from th2 absent have "fst (dataFromOperationId (Some ''Users_list'')) = ''Users''"
    and "snd (dataFromOperationId (Some ''Users_list'')) = ''list''"
    by blast+
  then have 2: "dataFromOperationId (Some ''Users_list'') = (''Users'', ''list'')"
    by (simp add: prod_eq_iff)
  from sp 1 sp2 2 show ?thesis by (intro conjI)
qed

text \<open>
  C3, as the spec words it, fails: the spec rewrites a suffix \<open>Controller\<close>, the code
  the leftmost \<open>Controller\<close>. The identifier \<open>ControllerFoo_bar\<close> has the first
  segment \<open>ControllerFoo\<close>, which does not end in \<open>Controller\<close> and which the code
  turns into \<open>ServiceFoo\<close>.
\<close>

theorem dataFromOperationId_suffix_counterexample:
  "split CHR ''_'' ''ControllerFoo_bar'' = [''ControllerFoo'', ''bar'']
   \<and> fst (dataFromOperationId (Some ''ControllerFoo_bar''))
       \<noteq> rewrite_suffix ''Controller'' ''Service'' ''ControllerFoo''"
  by (simp add: dataFromOperationId_def rewrite_suffix_def)

text \<open>
  C8. For every operation identifier that \<open>split\<close> does not cut at \<open>_\<close> into exactly
  two segments, the name resolver returns the pair of \<open>Service\<close> and \<open>unknownName\<close>;
  it is a total function and raises nothing. An operation with such an identifier is
  processed like any other. Where the file of utilities declares the type
  \<open>Configuration\<close>, the emitter takes the class \<open>Service\<close> and the method of the
  operation, and the classes of the project have their bodies, the call returns without an
  error, the file \<open>Service.ts\<close> of the services has a class named \<open>Service\<close>, and
  the method added to it is named \<open>unknownName\<close>. And whenever the call returns
  without an error, a class of the file \<open>Service.ts\<close> has gained one method, named
  \<open>unknownName\<close>.
\<close>

theorem malformed_identifier_default:
  assumes "length (split CHR ''_'' s) \<noteq> 2"
  shows "dataFromOperationId (Some s) = (''Service'', ''unknownName'')
       \<and> (\<forall>h rawPath method u models pathSpec rootDir project operationSpec.
             map_of pathSpec method = Some operationSpec
             \<and> operationId operationSpec = Some s
             \<and> array_includes (typeAliases u) ''Configuration''
             \<and> takes_class (ts_morph h) ''Service''
             \<and> method_text (ts_morph h) (generated_method h rawPath method operationSpec)
             \<and> bodies project
           \<longrightarrow> (\<exists>project' r m.
                  serviceFromPathSpecification h rawPath method u models pathSpec rootDir project
                    = (None, project')
                \<and> service_class project' (path_join h [rootDir, ''services'', ''Service.ts''])
                      ''Service'' = Some r
                \<and> c_name (classes (project' ! fst r) ! snd r) = Some ''Service''
                \<and> methods_at project' r =
                    class_methods project (path_join h [rootDir, ''services'', ''Service.ts''])
                      ''Service'' @ [m]
                \<and> m_name m = ''unknownName''))
       \<and> (\<forall>h rawPath method u models pathSpec rootDir project operationSpec project'.
             map_of pathSpec method = Some operationSpec
             \<and> operationId operationSpec = Some s
             \<and> serviceFromPathSpecification h rawPath method u models pathSpec rootDir project
                  = (None, project')
           \<longrightarrow> (\<exists>r m.
                  getSourceFile project' (path_join h [rootDir, ''services'', ''Service.ts''])
                    = Some (fst r)
                \<and> methods_at project' r = methods_at project r @ [m]
                \<and> m_name m = ''unknownName''))"
proof (intro conjI allI impI)
  show d: "dataFromOperationId (Some s) = (''Service'', ''unknownName'')"
    using assms by (simp add: dataFromOperationId_def)
  {
    fix h :: "('s, 't, 'x) helpers" and rawPath verb models rootDir and u :: utils_file
      and pathSpec :: "('t, 'x) path_item" and project :: "('s, 't) project"
      and operationSpec :: "('t, 'x) operation"
    assume a: "map_of pathSpec verb = Some operationSpec
               \<and> operationId operationSpec = Some s
               \<and> array_includes (typeAliases u) ''Configuration''
               \<and> takes_class (ts_morph h) ''Service''
               \<and> method_text (ts_morph h) (generated_method h rawPath verb operationSpec)
               \<and> bodies project"
    then have n: "service_name operationSpec = ''Service''"
      and f: "service_path h rootDir operationSpec = path_join h [rootDir, ''services'', ''Service.ts'']"
      and m: "m_name (generated_method h rawPath verb operationSpec) = ''unknownName''"
      using d by (simp_all add: service_name_def service_path_def generated_method_def)
    from a n have "\<exists>project' r.
             serviceFromPathSpecification h rawPath verb u models pathSpec rootDir project
               = (None, project')
           \<and> service_class project' (service_path h rootDir operationSpec)
                 (service_name operationSpec) = Some r
           \<and> c_name (classes (project' ! fst r) ! snd r) = Some (service_name operationSpec)
           \<and> methods_at project' r =
               class_methods project (service_path h rootDir operationSpec)
                 (service_name operationSpec)
               @ [generated_method h rawPath verb operationSpec]"
      by (intro serviceFromPathSpecification_generates) simp_all
    then show "\<exists>project' r m.
            serviceFromPathSpecification h rawPath verb u models pathSpec rootDir project
              = (None, project')
          \<and> service_class project' (path_join h [rootDir, ''services'', ''Service.ts''])
                ''Service'' = Some r
          \<and> c_name (classes (project' ! fst r) ! snd r) = Some ''Service''
          \<and> methods_at project' r =
              class_methods project (path_join h [rootDir, ''services'', ''Service.ts''])
                ''Service'' @ [m]
          \<and> m_name m = ''unknownName''"
      unfolding n f using m by blast
  }
  fix h :: "('s, 't, 'x) helpers" and rawPath verb models rootDir and u :: utils_file
    and pathSpec :: "('t, 'x) path_item" and project project' :: "('s, 't) project"
    and operationSpec :: "('t, 'x) operation"
  assume a: "map_of pathSpec verb = Some operationSpec
             \<and> operationId operationSpec = Some s
             \<and> serviceFromPathSpecification h rawPath verb u models pathSpec rootDir project
                  = (None, project')"
  then have f: "service_path h rootDir operationSpec = path_join h [rootDir, ''services'', ''Service.ts'']"
    and m: "m_name (generated_method h rawPath verb operationSpec) = ''unknownName''"
    using d by (simp_all add: service_name_def service_path_def generated_method_def)
  from a have "\<exists>r. getSourceFile project' (service_path h rootDir operationSpec) = Some (fst r)
           \<and> methods_at project' r =
               methods_at project r @ [generated_method h rawPath verb operationSpec]"
    using serviceFromPathSpecification_method_at [of h rawPath verb u models pathSpec rootDir
        project project' operationSpec]
    by simp
  then show "\<exists>r m.
          getSourceFile project' (path_join h [rootDir, ''services'', ''Service.ts''])
            = Some (fst r)
        \<and> methods_at project' r = methods_at project r @ [m]
        \<and> m_name m = ''unknownName''"
    unfolding f using m by blast
qed

theorem malformed_identifier_default_witness:
  "length (split CHR ''_'' ''Weird'') \<noteq> 2
   \<and> dataFromOperationId (Some ''Weird'') = (''Service'', ''unknownName'')
   \<and> array_includes (typeAliases example_utils) ''Configuration''
   \<and> takes_class (ts_morph (spec_helpers :: (string, string, string body_params option \<times> string return_type option) helpers)) ''Service''
   \<and> method_text (ts_morph (spec_helpers :: (string, string, string body_params option \<times> string return_type option) helpers))
         (generated_method (spec_helpers :: (string, string, string body_params option \<times> string return_type option) helpers) ''/users/{id}'' ''get''
            (example_operation\<lparr>operationId := Some ''Weird''\<rparr>))
   \<and> bodies ([] :: (string, string) project)
   \<and> (\<exists>project' r m.
         serviceFromPathSpecification spec_helpers ''/users/{id}'' ''get'' example_utils
           ''../models'' [(''get'', example_operation\<lparr>operationId := Some ''Weird''\<rparr>)] ''out'' []
           = (None, project')
       \<and> service_class project' ''out/services/Service.ts'' ''Service'' = Some r
       \<and> c_name (classes (project' ! fst r) ! snd r) = Some ''Service''
       \<and> methods_at project' r = [m]
       \<and> m_name m = ''unknownName''
       \<and> getSourceFile project' ''out/services/Service.ts'' = Some (fst r))"
proof -
  let ?op = "example_operation\<lparr>operationId := Some ''Weird''\<rparr>"
  let ?h = "(spec_helpers :: (string, string, string body_params option \<times> string return_type option) helpers)"
  have len: "length (split CHR ''_'' ''Weird'') \<noteq> 2" by simp
  have conf: "array_includes (typeAliases example_utils) ''Configuration''"
    by (simp add: example_utils_def array_includes_def)
  have tc: "takes_class (ts_morph ?h) ''Service''" by code_simp
  have tm: "method_text (ts_morph ?h) (generated_method ?h ''/users/{id}'' ''get'' ?op)"
    by code_simp
  have bd: "bodies ([] :: (string, string) project)" by (simp add: bodies_def)
  have hyp: "map_of [(''get'', ?op)] ''get'' = Some ?op
     \<and> operationId ?op = Some ''Weird''
     \<and> array_includes (typeAliases example_utils) ''Configuration''
     \<and> takes_class (ts_morph ?h) ''Service''
     \<and> method_text (ts_morph ?h) (generated_method ?h ''/users/{id}'' ''get'' ?op)
     \<and> bodies ([] :: (string, string) project)"
    using conf tc tm bd by simp
  have pj: "path_join ?h [''out'', ''services'', ''Service.ts''] = ''out/services/Service.ts''"
    by code_simp
  have old: "class_methods ([] :: (string, string) project) ''out/services/Service.ts'' ''Service'' = []"
    by (simp add: class_methods_def getSourceFile_def)
  note th = malformed_identifier_default [OF len]
  from th have d: "dataFromOperationId (Some ''Weird'') = (''Service'', ''unknownName'')"
    by (rule conjunct1)
  from th [THEN conjunct2, THEN conjunct1, rule_format, OF hyp,
      where models = "''../models''" and rootDir = "''out''"]
  obtain project' r m where
    p: "serviceFromPathSpecification ?h ''/users/{id}'' ''get'' example_utils
           ''../models'' [(''get'', ?op)] ''out'' [] = (None, project')"
    and r: "service_class project' ''out/services/Service.ts'' ''Service'' = Some r"
    and n: "c_name (classes (project' ! fst r) ! snd r) = Some ''Service''"
    and ms: "methods_at project' r = [m]"
    and mn: "m_name m = ''unknownName''"
    unfolding pj old by auto
  from r have g: "getSourceFile project' ''out/services/Service.ts'' = Some (fst r)"
    by (simp add: service_class_Some)
  from p r n ms mn g have "\<exists>project' r m.
         serviceFromPathSpecification spec_helpers ''/users/{id}'' ''get'' example_utils
           ''../models'' [(''get'', ?op)] ''out'' [] = (None, project')
       \<and> service_class project' ''out/services/Service.ts'' ''Service'' = Some r
       \<and> c_name (classes (project' ! fst r) ! snd r) = Some ''Service''
       \<and> methods_at project' r = [m]
       \<and> m_name m = ''unknownName''
       \<and> getSourceFile project' ''out/services/Service.ts'' = Some (fst r)"
    by (intro exI conjI)
  with len d conf tc tm bd show ?thesis by (intro conjI)
qed

text \<open>
  C10. For an operation without any \<open>operationId\<close>, the name resolver returns the pair
  of \<open>Service\<close> and \<open>unknownName\<close> and raises nothing, and the operation is
  generated as a method \<open>unknownName\<close> of the class \<open>Service\<close>, under the same
  conditions as for C8; and whenever the call returns without an error, a class of the
  file \<open>Service.ts\<close> has gained one method, named \<open>unknownName\<close>.
\<close>

theorem absent_identifier_default:
  "dataFromOperationId None = (''Service'', ''unknownName'')
   \<and> (\<forall>h rawPath method u models pathSpec rootDir project operationSpec.
         map_of pathSpec method = Some operationSpec
         \<and> operationId operationSpec = None
         \<and> array_includes (typeAliases u) ''Configuration''
         \<and> takes_class (ts_morph h) ''Service''
         \<and> method_text (ts_morph h) (generated_method h rawPath method operationSpec)
         \<and> bodies project
       \<longrightarrow> (\<exists>project' r m.
              serviceFromPathSpecification h rawPath method u models pathSpec rootDir project
                = (None, project')
            \<and> service_class project' (path_join h [rootDir, ''services'', ''Service.ts''])
                  ''Service'' = Some r
            \<and> c_name (classes (project' ! fst r) ! snd r) = Some ''Service''
            \<and> methods_at project' r =
                class_methods project (path_join h [rootDir, ''services'', ''Service.ts''])
                  ''Service'' @ [m]
            \<and> m_name m = ''unknownName''))
   \<and> (\<forall>h rawPath method u models pathSpec rootDir project operationSpec project'.
         map_of pathSpec method = Some operationSpec
         \<and> operationId operationSpec = None
         \<and> serviceFromPathSpecification h rawPath method u models pathSpec rootDir project
              = (None, project')
       \<longrightarrow> (\<exists>r m.
              getSourceFile project' (path_join h [rootDir, ''services'', ''Service.ts''])
                = Some (fst r)
            \<and> methods_at project' r = methods_at project r @ [m]
            \<and> m_name m = ''unknownName''))"
proof (intro conjI allI impI)
  show d: "dataFromOperationId None = (''Service'', ''unknownName'')"
    by (simp add: dataFromOperationId_def)
  {
    fix h :: "('s, 't, 'x) helpers" and rawPath verb models rootDir and u :: utils_file
      and pathSpec :: "('t, 'x) path_item" and project :: "('s, 't) project"
      and operationSpec :: "('t, 'x) operation"
    assume a: "map_of pathSpec verb = Some operationSpec
               \<and> operationId operationSpec = None
               \<and> array_includes (typeAliases u) ''Configuration''
               \<and> takes_class (ts_morph h) ''Service''
               \<and> method_text (ts_morph h) (generated_method h rawPath verb operationSpec)
               \<and> bodies project"
    then have n: "service_name operationSpec = ''Service''"
      and f: "service_path h rootDir operationSpec = path_join h [rootDir, ''services'', ''Service.ts'']"
      and m: "m_name (generated_method h rawPath verb operationSpec) = ''unknownName''"
      using d by (simp_all add: service_name_def service_path_def generated_method_def)
    from a n have "\<exists>project' r.
             serviceFromPathSpecification h rawPath verb u models pathSpec rootDir project
               = (None, project')
           \<and> service_class project' (service_path h rootDir operationSpec)
                 (service_name operationSpec) = Some r
           \<and> c_name (classes (project' ! fst r) ! snd r) = Some (service_name operationSpec)
           \<and> methods_at project' r =
               class_methods project (service_path h rootDir operationSpec)
                 (service_name operationSpec)
               @ [generated_method h rawPath verb operationSpec]"
      by (intro serviceFromPathSpecification_generates) simp_all
    then show "\<exists>project' r m.
            serviceFromPathSpecification h rawPath verb u models pathSpec rootDir project
              = (None, project')
          \<and> service_class project' (path_join h [rootDir, ''services'', ''Service.ts''])
                ''Service'' = Some r
          \<and> c_name (classes (project' ! fst r) ! snd r) = Some ''Service''
          \<and> methods_at project' r =
              class_methods project (path_join h [rootDir, ''services'', ''Service.ts''])
                ''Service'' @ [m]
          \<and> m_name m = ''unknownName''"
      unfolding n f using m by blast
  }
  fix h :: "('s, 't, 'x) helpers" and rawPath verb models rootDir and u :: utils_file
    and pathSpec :: "('t, 'x) path_item" and project project' :: "('s, 't) project"
    and operationSpec :: "('t, 'x) operation"
  assume a: "map_of pathSpec verb = Some operationSpec
             \<and> operationId operationSpec = None
             \<and> serviceFromPathSpecification h rawPath verb u models pathSpec rootDir project
                  = (None, project')"
  then have f: "service_path h rootDir operationSpec = path_join h [rootDir, ''services'', ''Service.ts'']"
    and m: "m_name (generated_method h rawPath verb operationSpec) = ''unknownName''"
    using d by (simp_all add: service_name_def service_path_def generated_method_def)
  from a have "\<exists>r. getSourceFile project' (service_path h rootDir operationSpec) = Some (fst r)
           \<and> methods_at project' r =
               methods_at project r @ [generated_method h rawPath verb operationSpec]"
    using serviceFromPathSpecification_method_at [of h rawPath verb u models pathSpec rootDir
        project project' operationSpec]
    by simp
  then show "\<exists>r m.
          getSourceFile project' (path_join h [rootDir, ''services'', ''Service.ts''])
            = Some (fst r)
        \<and> methods_at project' r = methods_at project r @ [m]
        \<and> m_name m = ''unknownName''"
    unfolding f using m by blast
qed

theorem absent_identifier_default_witness:
  "array_includes (typeAliases example_utils) ''Configuration''
   \<and> takes_class (ts_morph (spec_helpers :: (string, string, string body_params option \<times> string return_type option) helpers)) ''Service''
   \<and> method_text (ts_morph (spec_helpers :: (string, string, string body_params option \<times> string return_type option) helpers))
         (generated_method (spec_helpers :: (string, string, string body_params option \<times> string return_type option) helpers) ''/users/{id}'' ''get''
            (example_operation\<lparr>operationId := None\<rparr>))
   \<and> bodies ([] :: (string, string) project)
   \<and> (\<exists>project' r m.
         serviceFromPathSpecification spec_helpers ''/users/{id}'' ''get'' example_utils
           ''../models'' [(''get'', example_operation\<lparr>operationId := None\<rparr>)] ''out'' []
           = (None, project')
       \<and> service_class project' ''out/services/Service.ts'' ''Service'' = Some r
       \<and> c_name (classes (project' ! fst r) ! snd r) = Some ''Service''
       \<and> methods_at project' r = [m]
       \<and> m_name m = ''unknownName''
       \<and> getSourceFile project' ''out/services/Service.ts'' = Some (fst r))"
proof -
  let ?op = "example_operation\<lparr>operationId := None\<rparr>"
  let ?h = "(spec_helpers :: (string, string, string body_params option \<times> string return_type option) helpers)"
  have conf: "array_includes (typeAliases example_utils) ''Configuration''"
    by (simp add: example_utils_def array_includes_def)
  have tc: "takes_class (ts_morph ?h) ''Service''" by code_simp
  have tm: "method_text (ts_morph ?h) (generated_method ?h ''/users/{id}'' ''get'' ?op)"
    by code_simp
  have bd: "bodies ([] :: (string, string) project)" by (simp add: bodies_def)
  have hyp: "map_of [(''get'', ?op)] ''get'' = Some ?op
     \<and> operationId ?op = None
     \<and> array_includes (typeAliases example_utils) ''Configuration''
     \<and> takes_class (ts_morph ?h) ''Service''
     \<and> method_text (ts_morph ?h) (generated_method ?h ''/users/{id}'' ''get'' ?op)
     \<and> bodies ([] :: (string, string) project)"
    using conf tc tm bd by simp
  have pj: "path_join ?h [''out'', ''services'', ''Service.ts''] = ''out/services/Service.ts''"
    by code_simp
  have old: "class_methods ([] :: (string, string) project) ''out/services/Service.ts'' ''Service'' = []"
    by (simp add: class_methods_def getSourceFile_def)
  from absent_identifier_default [THEN conjunct2, THEN conjunct1, rule_format, OF hyp,
      where models = "''../models''" and rootDir = "''out''"]
  obtain project' r m where
    p: "serviceFromPathSpecification ?h ''/users/{id}'' ''get'' example_utils
           ''../models'' [(''get'', ?op)] ''out'' [] = (None, project')"
    and r: "service_class project' ''out/services/Service.ts'' ''Service'' = Some r"
    and n: "c_name (classes (project' ! fst r) ! snd r) = Some ''Service''"
    and ms: "methods_at project' r = [m]"
    and mn: "m_name m = ''unknownName''"
    unfolding pj old by auto
  from r have g: "getSourceFile project' ''out/services/Service.ts'' = Some (fst r)"
    by (simp add: service_class_Some)
  from p r n ms mn g have "\<exists>project' r m.
         serviceFromPathSpecification spec_helpers ''/users/{id}'' ''get'' example_utils
           ''../models'' [(''get'', ?op)] ''out'' [] = (None, project')
       \<and> service_class project' ''out/services/Service.ts'' ''Service'' = Some r
       \<and> c_name (classes (project' ! fst r) ! snd r) = Some ''Service''
       \<and> methods_at project' r = [m]
       \<and> m_name m = ''unknownName''
       \<and> getSourceFile project' ''out/services/Service.ts'' = Some (fst r)"
    by (intro exI conjI)
  with conf tc tm bd show ?thesis by (intro conjI)
qed

section \<open>The generated method\<close>

lemma generated_method_statements:
  "m_statements (generated_method h rawPath method operationSpec) =
             [destructWriter False ''this.configuration'' [''baseUrl'', ''adapter'']]
             @ (if \<exists>p \<in> set (parameters operationSpec). p_in p = ''path''
                then [destructWriter True ''props''
                        (map p_name (filter (\<lambda>p. p_in p = ''path'') (parameters operationSpec)))]
                else [])
             @ [newLine,
                returnStatement
                  \<lparr>callName = ''adapter'',
                   parametricType =
                     (case extractResponseType h operationSpec of
                        Some r \<Rightarrow> openAPISpecTreeSpecWriter (rt_schema r)
                      | None \<Rightarrow> literalWriter ''void''),
                   params =
                     [Object
                        [(''url'',
                          printStringTemplate h (''${baseUrl}'' @ pathArgsToTemplate h rawPath)),
                         (''method'', Text ([CHR 0x27] @ toUpperCase method @ [CHR 0x27])),
                         (''queryParams'',
                          if filter (\<lambda>p. p_in p = ''query'') (parameters operationSpec) = []
                          then Text ''undefined''
                          else Object
                                 (listToObject (filter (\<lambda>p. p_in p = ''query'') (parameters operationSpec))
                                    (\<lambda>p. (p_name p,
                                           Text (''props['' @ [CHR 0x27] @ p_name p @ [CHR 0x27] @ '']''))))),
                         (''bodyArgs'',
                          case extractContentSchema h ''bodyArgs'' operationSpec of
                            Some b \<Rightarrow>
                              Text (''props['' @ [CHR 0x27] @ contentName b @ [CHR 0x27] @ '']'')
                          | None \<Rightarrow> Text ''undefined'')]]\<rparr>]"
proof -
  have "(filter (\<lambda>p. p_in p = ''path'') (parameters operationSpec) = [])
        = (\<not> (\<exists>p \<in> set (parameters operationSpec). p_in p = ''path''))"
    by (simp add: filter_empty_conv)
  then show ?thesis
    by (simp add: generated_method_def method_statements_explicit)
qed

lemma generated_method_parameters:
  "m_parameters (generated_method h rawPath method operationSpec) =
     (if extractContentSchema h ''bodyArgs'' operationSpec = None \<and> parameters operationSpec = []
      then []
      else [\<lparr>pd_name = ''props'',
                  objectType =
                    (case extractContentSchema h ''bodyArgs'' operationSpec of
                       None \<Rightarrow> []
                     | Some b \<Rightarrow>
                         [\<lparr>ps_name = contentName b,
                           ps_type = openAPISpecTreeSpecWriter (bp_schema b),
                           hasQuestionToken = (\<not> bp_required b)\<rparr>])
                    @ map (\<lambda>p. \<lparr>ps_name = p_name p,
                                 ps_type = sanitizeType (p_schema_type p),
                                 hasQuestionToken = (\<not> p_required p)\<rparr>)
                        (parameters operationSpec)\<rparr>])"
  by (simp add: generated_method_def method_parameters_explicit)

lemma methods_at_Nil [simp]: "methods_at [] r = []"
  by (simp add: methods_at_def)

text \<open>
  C2. For every processed operation, one class of the service file of the operation gains
  one method, whose statements are, in this order: the destructuring of
  \<open>this.configuration\<close> into \<open>baseUrl\<close> and \<open>adapter\<close>; if and only if a
  parameter of the location \<open>path\<close> exists, the destructuring of \<open>props\<close> into
  exactly the names of the path parameters; a blank line; and the return of the call of
  \<open>adapter\<close>, with the type written from the response schema, or \<open>void\<close> when there
  is none, and with one argument, the object of the fields \<open>url\<close> (\<open>${baseUrl}\<close>
  followed by the template of the path), \<open>method\<close> (the verb in upper case between
  single quotes), \<open>queryParams\<close> and \<open>bodyArgs\<close> (the text \<open>props['\<close>, the
  content name of the body, \<open>']\<close>; or \<open>undefined\<close> when there is no body schema).
  The known verbs in upper case are \<open>POST\<close>, \<open>GET\<close>, \<open>PATCH\<close>, \<open>DELETE\<close>
  and \<open>PUT\<close>.
\<close>

theorem method_body_in_fixed_order:
  assumes "serviceFromPathSpecification h rawPath method u models pathSpec rootDir project
             = (None, project')"
    and "map_of pathSpec method = Some operationSpec"
  shows "(\<exists>r m.
           getSourceFile project' (service_path h rootDir operationSpec) = Some (fst r)
         \<and> methods_at project' r = methods_at project r @ [m]
         \<and> m_statements m =
             [destructWriter False ''this.configuration'' [''baseUrl'', ''adapter'']]
             @ (if \<exists>p \<in> set (parameters operationSpec). p_in p = ''path''
                then [destructWriter True ''props''
                        (map p_name (filter (\<lambda>p. p_in p = ''path'') (parameters operationSpec)))]
                else [])
             @ [newLine,
                returnStatement
                  \<lparr>callName = ''adapter'',
                   parametricType =
                     (case extractResponseType h operationSpec of
                        Some r \<Rightarrow> openAPISpecTreeSpecWriter (rt_schema r)
                      | None \<Rightarrow> literalWriter ''void''),
                   params =
                     [Object
                        [(''url'',
                          printStringTemplate h (''${baseUrl}'' @ pathArgsToTemplate h rawPath)),
                         (''method'', Text ([CHR 0x27] @ toUpperCase method @ [CHR 0x27])),
                         (''queryParams'',
                          if filter (\<lambda>p. p_in p = ''query'') (parameters operationSpec) = []
                          then Text ''undefined''
                          else Object
                                 (listToObject (filter (\<lambda>p. p_in p = ''query'') (parameters operationSpec))
                                    (\<lambda>p. (p_name p,
                                           Text (''props['' @ [CHR 0x27] @ p_name p @ [CHR 0x27] @ '']''))))),
                         (''bodyArgs'',
                          case extractContentSchema h ''bodyArgs'' operationSpec of
                            Some b \<Rightarrow>
                              Text (''props['' @ [CHR 0x27] @ contentName b @ [CHR 0x27] @ '']'')
                          | None \<Rightarrow> Text ''undefined'')]]\<rparr>])
       \<and> map toUpperCase knownOperations = [''POST'', ''GET'', ''PATCH'', ''DELETE'', ''PUT'']"
proof
  from serviceFromPathSpecification_method_at [OF assms] obtain r where
    "getSourceFile project' (service_path h rootDir operationSpec) = Some (fst r)"
    "methods_at project' r =
       methods_at project r @ [generated_method h rawPath method operationSpec]"
    by blast
  then show "\<exists>r m.
           getSourceFile project' (service_path h rootDir operationSpec) = Some (fst r)
         \<and> methods_at project' r = methods_at project r @ [m]
         \<and> m_statements m =
             [destructWriter False ''this.configuration'' [''baseUrl'', ''adapter'']]
             @ (if \<exists>p \<in> set (parameters operationSpec). p_in p = ''path''
                then [destructWriter True ''props''
                        (map p_name (filter (\<lambda>p. p_in p = ''path'') (parameters operationSpec)))]
                else [])
             @ [newLine,
                returnStatement
                  \<lparr>callName = ''adapter'',
                   parametricType =
                     (case extractResponseType h operationSpec of
                        Some r \<Rightarrow> openAPISpecTreeSpecWriter (rt_schema r)
                      | None \<Rightarrow> literalWriter ''void''),
                   params =
                     [Object
                        [(''url'',
                          printStringTemplate h (''${baseUrl}'' @ pathArgsToTemplate h rawPath)),
                         (''method'', Text ([CHR 0x27] @ toUpperCase method @ [CHR 0x27])),
                         (''queryParams'',
                          if filter (\<lambda>p. p_in p = ''query'') (parameters operationSpec) = []
                          then Text ''undefined''
                          else Object
                                 (listToObject (filter (\<lambda>p. p_in p = ''query'') (parameters operationSpec))
                                    (\<lambda>p. (p_name p,
                                           Text (''props['' @ [CHR 0x27] @ p_name p @ [CHR 0x27] @ '']''))))),
                         (''bodyArgs'',
                          case extractContentSchema h ''bodyArgs'' operationSpec of
                            Some b \<Rightarrow>
                              Text (''props['' @ [CHR 0x27] @ contentName b @ [CHR 0x27] @ '']'')
                          | None \<Rightarrow> Text ''undefined'')]]\<rparr>]"
    using generated_method_statements [of h rawPath "method" operationSpec]
    by (intro exI conjI)
  show "map toUpperCase knownOperations = [''POST'', ''GET'', ''PATCH'', ''DELETE'', ''PUT'']"
    by code_simp
qed

theorem method_body_in_fixed_order_witness:
  "(\<exists>project' r m.
      serviceFromPathSpecification spec_helpers ''/users/{id}'' ''get'' example_utils ''../models''
       [(''get'', example_operation)] ''out'' [] = (None, project')
    \<and> map_of [(''get'', example_operation)] ''get'' = Some example_operation
    \<and> getSourceFile project' ''out/services/UserService.ts'' = Some (fst r)
    \<and> methods_at project' r = [m]
    \<and> m_statements m =
        [destructWriter False ''this.configuration'' [''baseUrl'', ''adapter''],
         destructWriter True ''props'' [''id''],
         newLine,
         returnStatement
           \<lparr>callName = ''adapter'',
            parametricType = openAPISpecTreeSpecWriter ''User'',
            params =
              [Object
                 [(''url'', Text (CHR 0x60 # ''${baseUrl}/users/${id}'' @ [CHR 0x60])),
                  (''method'', Text ([CHR 0x27] @ ''GET'' @ [CHR 0x27])),
                  (''queryParams'', Text ''undefined''),
                  (''bodyArgs'', Text ''undefined'')]]\<rparr>])
   \<and> (\<exists>project' r m.
      serviceFromPathSpecification spec_helpers ''/users/search'' ''post'' example_utils
       ''../models'' [(''post'', example_search)] ''out'' [] = (None, project')
    \<and> map_of [(''post'', example_search)] ''post'' = Some example_search
    \<and> getSourceFile project' ''out/services/UserService.ts'' = Some (fst r)
    \<and> methods_at project' r = [m]
    \<and> m_statements m =
        [destructWriter False ''this.configuration'' [''baseUrl'', ''adapter''],
         newLine,
         returnStatement
           \<lparr>callName = ''adapter'',
            parametricType = literalWriter ''void'',
            params =
              [Object
                 [(''url'', Text (CHR 0x60 # ''${baseUrl}/users/search'' @ [CHR 0x60])),
                  (''method'', Text ([CHR 0x27] @ ''POST'' @ [CHR 0x27])),
                  (''queryParams'',
                   Object [(''limit'',
                            Text (''props['' @ [CHR 0x27] @ ''limit'' @ [CHR 0x27] @ '']''))]),
                  (''bodyArgs'',
                   Text (''props['' @ [CHR 0x27] @ ''bodyArgs'' @ [CHR 0x27] @ '']''))]]\<rparr>])"
proof
  let ?h = "(spec_helpers :: (string, string, string body_params option \<times> string return_type option) helpers)"
  let ?P = "snd (serviceFromPathSpecification spec_helpers ''/users/{id}'' ''get'' example_utils ''../models''
       [(''get'', example_operation)] ''out'' [])"
  let ?gm = "generated_method ?h ''/users/{id}'' ''get'' example_operation"
  have op: "map_of [(''get'', example_operation)] ''get'' = Some example_operation" by simp
  note e = generated_method_statements [of ?h "''/users/{id}''" "''get''" example_operation]
  from method_body_in_fixed_order [OF example_processed op, THEN conjunct1]
  have "\<exists>r m. getSourceFile ?P ''out/services/UserService.ts'' = Some (fst r)
      \<and> methods_at ?P r = [m] \<and> m_statements m = m_statements ?gm"
    by (simp only: e example_names methods_at_Nil append_Nil)
  then obtain r m where g: "getSourceFile ?P ''out/services/UserService.ts'' = Some (fst r)"
    and ms: "methods_at ?P r = [m]" and st: "m_statements m = m_statements ?gm"
    by blast
  have "m_statements ?gm =
        [destructWriter False ''this.configuration'' [''baseUrl'', ''adapter''],
         destructWriter True ''props'' [''id''],
         newLine,
         returnStatement
           \<lparr>callName = ''adapter'',
            parametricType = openAPISpecTreeSpecWriter ''User'',
            params =
              [Object
                 [(''url'', Text (CHR 0x60 # ''${baseUrl}/users/${id}'' @ [CHR 0x60])),
                  (''method'', Text ([CHR 0x27] @ ''GET'' @ [CHR 0x27])),
                  (''queryParams'', Text ''undefined''),
                  (''bodyArgs'', Text ''undefined'')]]\<rparr>]"
    by code_simp
  with st have st': "m_statements m =
        [destructWriter False ''this.configuration'' [''baseUrl'', ''adapter''],
         destructWriter True ''props'' [''id''],
         newLine,
         returnStatement
           \<lparr>callName = ''adapter'',
            parametricType = openAPISpecTreeSpecWriter ''User'',
            params =
              [Object
                 [(''url'', Text (CHR 0x60 # ''${baseUrl}/users/${id}'' @ [CHR 0x60])),
                  (''method'', Text ([CHR 0x27] @ ''GET'' @ [CHR 0x27])),
                  (''queryParams'', Text ''undefined''),
                  (''bodyArgs'', Text ''undefined'')]]\<rparr>]"
    by (rule trans)
  show "\<exists>project' r m.
      serviceFromPathSpecification spec_helpers ''/users/{id}'' ''get'' example_utils ''../models''
       [(''get'', example_operation)] ''out'' [] = (None, project')
    \<and> map_of [(''get'', example_operation)] ''get'' = Some example_operation
    \<and> getSourceFile project' ''out/services/UserService.ts'' = Some (fst r)
    \<and> methods_at project' r = [m]
    \<and> m_statements m =
        [destructWriter False ''this.configuration'' [''baseUrl'', ''adapter''],
         destructWriter True ''props'' [''id''],
         newLine,
         returnStatement
           \<lparr>callName = ''adapter'',
            parametricType = openAPISpecTreeSpecWriter ''User'',
            params =
              [Object
                 [(''url'', Text (CHR 0x60 # ''${baseUrl}/users/${id}'' @ [CHR 0x60])),
                  (''method'', Text ([CHR 0x27] @ ''GET'' @ [CHR 0x27])),
                  (''queryParams'', Text ''undefined''),
                  (''bodyArgs'', Text ''undefined'')]]\<rparr>]"
    using example_processed op g ms st' by (intro exI conjI)
next
  let ?h = "(spec_helpers :: (string, string, string body_params option \<times> string return_type option) helpers)"
  let ?P = "snd (serviceFromPathSpecification spec_helpers ''/users/search'' ''post'' example_utils
       ''../models'' [(''post'', example_search)] ''out'' [])"
  let ?gm = "generated_method ?h ''/users/search'' ''post'' example_search"
  have op: "map_of [(''post'', example_search)] ''post'' = Some example_search" by simp
  note e = generated_method_statements [of ?h "''/users/search''" "''post''" example_search]
  from method_body_in_fixed_order [OF search_processed op, THEN conjunct1]
  have "\<exists>r m. getSourceFile ?P ''out/services/UserService.ts'' = Some (fst r)
      \<and> methods_at ?P r = [m] \<and> m_statements m = m_statements ?gm"
    by (simp only: e search_names methods_at_Nil append_Nil)
  then obtain r m where g: "getSourceFile ?P ''out/services/UserService.ts'' = Some (fst r)"
    and ms: "methods_at ?P r = [m]" and st: "m_statements m = m_statements ?gm"
    by blast
  have "m_statements ?gm =
        [destructWriter False ''this.configuration'' [''baseUrl'', ''adapter''],
         newLine,
         returnStatement
           \<lparr>callName = ''adapter'',
            parametricType = literalWriter ''void'',
            params =
              [Object
                 [(''url'', Text (CHR 0x60 # ''${baseUrl}/users/search'' @ [CHR 0x60])),
                  (''method'', Text ([CHR 0x27] @ ''POST'' @ [CHR 0x27])),
                  (''queryParams'',
                   Object [(''limit'',
                            Text (''props['' @ [CHR 0x27] @ ''limit'' @ [CHR 0x27] @ '']''))]),
                  (''bodyArgs'',
                   Text (''props['' @ [CHR 0x27] @ ''bodyArgs'' @ [CHR 0x27] @ '']''))]]\<rparr>]"
    by code_simp
  with st have st': "m_statements m =
        [destructWriter False ''this.configuration'' [''baseUrl'', ''adapter''],
         newLine,
         returnStatement
           \<lparr>callName = ''adapter'',
            parametricType = literalWriter ''void'',
            params =
              [Object
                 [(''url'', Text (CHR 0x60 # ''${baseUrl}/users/search'' @ [CHR 0x60])),
                  (''method'', Text ([CHR 0x27] @ ''POST'' @ [CHR 0x27])),
                  (''queryParams'',
                   Object [(''limit'',
                            Text (''props['' @ [CHR 0x27] @ ''limit'' @ [CHR 0x27] @ '']''))]),
                  (''bodyArgs'',
                   Text (''props['' @ [CHR 0x27] @ ''bodyArgs'' @ [CHR 0x27] @ '']''))]]\<rparr>]"
    by (rule trans)
  show "\<exists>project' r m.
      serviceFromPathSpecification spec_helpers ''/users/search'' ''post'' example_utils
       ''../models'' [(''post'', example_search)] ''out'' [] = (None, project')
    \<and> map_of [(''post'', example_search)] ''post'' = Some example_search
    \<and> getSourceFile project' ''out/services/UserService.ts'' = Some (fst r)
    \<and> methods_at project' r = [m]
    \<and> m_statements m =
        [destructWriter False ''this.configuration'' [''baseUrl'', ''adapter''],
         newLine,
         returnStatement
           \<lparr>callName = ''adapter'',
            parametricType = literalWriter ''void'',
            params =
              [Object
                 [(''url'', Text (CHR 0x60 # ''${baseUrl}/users/search'' @ [CHR 0x60])),
                  (''method'', Text ([CHR 0x27] @ ''POST'' @ [CHR 0x27])),
                  (''queryParams'',
                   Object [(''limit'',
                            Text (''props['' @ [CHR 0x27] @ ''limit'' @ [CHR 0x27] @ '']''))]),
                  (''bodyArgs'',
                   Text (''props['' @ [CHR 0x27] @ ''bodyArgs'' @ [CHR 0x27] @ '']''))]]\<rparr>]"
    using search_processed op g ms st' by (intro exI conjI)
qed

text \<open>
  C5. For every processed operation, the method that is added has no parameter if and only
  if the operation has no body schema and no declared parameter. Otherwise it has exactly
  one parameter, \<open>props\<close>, whose object type lists the content field of the body
  (optional if and only if the body is not required) and then one field for each declared
  parameter, in the order of the declaration (optional if and only if not required).
\<close>

theorem method_parameter_props:
  assumes "serviceFromPathSpecification h rawPath method u models pathSpec rootDir project
             = (None, project')"
    and "map_of pathSpec method = Some operationSpec"
  shows "\<exists>r m.
           getSourceFile project' (service_path h rootDir operationSpec) = Some (fst r)
         \<and> methods_at project' r = methods_at project r @ [m]
         \<and> (m_parameters m = [] \<longleftrightarrow>
              extractContentSchema h ''bodyArgs'' operationSpec = None
              \<and> parameters operationSpec = [])
         \<and> (m_parameters m \<noteq> [] \<longrightarrow>
              m_parameters m =
                [\<lparr>pd_name = ''props'',
                  objectType =
                    (case extractContentSchema h ''bodyArgs'' operationSpec of
                       None \<Rightarrow> []
                     | Some b \<Rightarrow>
                         [\<lparr>ps_name = contentName b,
                           ps_type = openAPISpecTreeSpecWriter (bp_schema b),
                           hasQuestionToken = (\<not> bp_required b)\<rparr>])
                    @ map (\<lambda>p. \<lparr>ps_name = p_name p,
                                 ps_type = sanitizeType (p_schema_type p),
                                 hasQuestionToken = (\<not> p_required p)\<rparr>)
                        (parameters operationSpec)\<rparr>])"
proof -
  let ?m = "generated_method h rawPath method operationSpec"
  from serviceFromPathSpecification_method_at [OF assms] obtain r where
    r: "getSourceFile project' (service_path h rootDir operationSpec) = Some (fst r)"
    "methods_at project' r = methods_at project r @ [?m]"
    by blast
  have 1: "m_parameters ?m = [] \<longleftrightarrow>
              extractContentSchema h ''bodyArgs'' operationSpec = None
              \<and> parameters operationSpec = []"
    by (simp add: generated_method_parameters)
  have 2: "m_parameters ?m \<noteq> [] \<longrightarrow>
              m_parameters ?m =
                [\<lparr>pd_name = ''props'',
                  objectType =
                    (case extractContentSchema h ''bodyArgs'' operationSpec of
                       None \<Rightarrow> []
                     | Some b \<Rightarrow>
                         [\<lparr>ps_name = contentName b,
                           ps_type = openAPISpecTreeSpecWriter (bp_schema b),
                           hasQuestionToken = (\<not> bp_required b)\<rparr>])
                    @ map (\<lambda>p. \<lparr>ps_name = p_name p,
                                 ps_type = sanitizeType (p_schema_type p),
                                 hasQuestionToken = (\<not> p_required p)\<rparr>)
                        (parameters operationSpec)\<rparr>]"
    by (simp add: generated_method_parameters)
  from r 1 2 show ?thesis by (intro exI conjI)
qed

theorem method_parameter_props_witness:
  "\<exists>project' r m.
     serviceFromPathSpecification spec_helpers ''/users/search'' ''post'' example_utils
       ''../models'' [(''post'', example_search)] ''out'' [] = (None, project')
   \<and> map_of [(''post'', example_search)] ''post'' = Some example_search
   \<and> getSourceFile project' ''out/services/UserService.ts'' = Some (fst r)
   \<and> methods_at project' r = [m]
   \<and> m_parameters m =
              [\<lparr>pd_name = ''props'',
                objectType =
                  [\<lparr>ps_name = ''bodyArgs'', ps_type = openAPISpecTreeSpecWriter ''Filter'',
                    hasQuestionToken = False\<rparr>,
                   \<lparr>ps_name = ''limit'', ps_type = sanitizeType ''number'',
                    hasQuestionToken = True\<rparr>,
                   \<lparr>ps_name = ''traceId'', ps_type = sanitizeType ''string'',
                    hasQuestionToken = True\<rparr>]\<rparr>]"
proof -
  let ?h = "(spec_helpers :: (string, string, string body_params option \<times> string return_type option) helpers)"
  let ?P = "snd (serviceFromPathSpecification spec_helpers ''/users/search'' ''post'' example_utils
       ''../models'' [(''post'', example_search)] ''out'' [])"
  have op: "map_of [(''post'', example_search)] ''post'' = Some example_search" by simp
  from method_parameter_props [OF search_processed op] obtain r m where
    g: "getSourceFile ?P ''out/services/UserService.ts'' = Some (fst r)"
    and ms: "methods_at ?P r = [m]"
    and mp: "m_parameters m =
              [\<lparr>pd_name = ''props'',
                objectType =
                  [\<lparr>ps_name = ''bodyArgs'', ps_type = openAPISpecTreeSpecWriter ''Filter'',
                    hasQuestionToken = False\<rparr>,
                   \<lparr>ps_name = ''limit'', ps_type = sanitizeType ''number'',
                    hasQuestionToken = True\<rparr>,
                   \<lparr>ps_name = ''traceId'', ps_type = sanitizeType ''string'',
                    hasQuestionToken = True\<rparr>]\<rparr>]"
    unfolding search_names
    by (auto simp: example_search_def spec_helpers_def extractContentSchema_spec_def)
  show ?thesis
    using search_processed op g ms mp by (intro exI conjI)
qed

text \<open>
  C6, as the code has it. For every processed operation, the field \<open>queryParams\<close> of
  the object passed to \<open>adapter\<close> is \<open>undefined\<close> if and only if no declared
  parameter has the location \<open>query\<close>. Otherwise it is an object with exactly one
  entry for each name of a query parameter, from the name to the text \<open>props['\<close>,
  the name, \<open>']\<close>; and when the names of the query parameters are all different and
  none of them is an array index, the entries are those of the query parameters in the
  order of the declaration.
\<close>

theorem queryParams_field:
  assumes "serviceFromPathSpecification h rawPath method u models pathSpec rootDir project
             = (None, project')"
    and "map_of pathSpec method = Some operationSpec"
  shows "\<exists>r m.
           getSourceFile project' (service_path h rootDir operationSpec) = Some (fst r)
         \<and> methods_at project' r = methods_at project r @ [m]
         \<and> m_statements m \<noteq> []
         \<and> (request_field (last (m_statements m)) ''queryParams'' = Some (Text ''undefined'')
              \<longleftrightarrow> \<not> (\<exists>p \<in> set (parameters operationSpec). p_in p = ''query''))
         \<and> ((\<exists>p \<in> set (parameters operationSpec). p_in p = ''query'') \<longrightarrow>
              (\<exists>obj.
                 request_field (last (m_statements m)) ''queryParams'' = Some (Object obj)
               \<and> distinct (map fst obj)
               \<and> set (map fst obj)
                   = set (map p_name (filter (\<lambda>p. p_in p = ''query'') (parameters operationSpec)))
               \<and> (\<forall>e \<in> set obj.
                     snd e = Text (''props['' @ [CHR 0x27] @ fst e @ [CHR 0x27] @ '']''))
               \<and> (distinct (map p_name
                               (filter (\<lambda>p. p_in p = ''query'') (parameters operationSpec)))
                    \<and> (\<forall>p \<in> set (parameters operationSpec).
                          p_in p = ''query'' \<longrightarrow> \<not> array_index (p_name p))
                  \<longrightarrow> obj =
                        map (\<lambda>p. (p_name p,
                                   Text (''props['' @ [CHR 0x27] @ p_name p @ [CHR 0x27] @ '']'')))
                          (filter (\<lambda>p. p_in p = ''query'') (parameters operationSpec)))))"
proof -
  let ?m = "generated_method h rawPath method operationSpec"
  let ?q = "filter (\<lambda>p. p_in p = ''query'') (parameters operationSpec)"
  let ?f = "\<lambda>p. (p_name p, Text (''props['' @ [CHR 0x27] @ p_name p @ [CHR 0x27] @ '']''))"
  let ?g = "\<lambda>n. Text (''props['' @ [CHR 0x27] @ n @ [CHR 0x27] @ '']'')"
  let ?obj = "listToObject ?q ?f"
  from serviceFromPathSpecification_method_at [OF assms] obtain r where
    r: "getSourceFile project' (service_path h rootDir operationSpec) = Some (fst r)"
    "methods_at project' r = methods_at project r @ [?m]"
    by blast
  have q: "(?q = []) = (\<not> (\<exists>p \<in> set (parameters operationSpec). p_in p = ''query''))"
    by (simp add: filter_empty_conv)
  have ne: "m_statements ?m \<noteq> []"
    by (simp add: generated_method_statements)
  have field: "request_field (last (m_statements ?m)) ''queryParams'' =
          Some (if ?q = [] then Text ''undefined'' else Object ?obj)"
    by (simp add: generated_method_statements)
  have 1: "request_field (last (m_statements ?m)) ''queryParams'' = Some (Text ''undefined'')
              \<longleftrightarrow> \<not> (\<exists>p \<in> set (parameters operationSpec). p_in p = ''query'')"
    unfolding field using q by auto
  have k1: "distinct (map fst ?obj)" by (rule listToObject_keys(2))
  have k2: "set (map fst ?obj) = set (map p_name ?q)"
    using listToObject_keys(1) [of ?q ?f] by simp
  have k3: "\<forall>e \<in> set ?obj. snd e = ?g (fst e)"
    by (rule listToObject_values) simp
  have k4: "?obj = map ?f ?q"
    if "distinct (map p_name ?q)
        \<and> (\<forall>p \<in> set (parameters operationSpec). p_in p = ''query'' \<longrightarrow> \<not> array_index (p_name p))"
    using that by (intro listToObject_map) simp_all
  have 2: "(\<exists>p \<in> set (parameters operationSpec). p_in p = ''query'') \<longrightarrow>
           (\<exists>obj.
                 request_field (last (m_statements ?m)) ''queryParams'' = Some (Object obj)
               \<and> distinct (map fst obj)
               \<and> set (map fst obj) = set (map p_name ?q)
               \<and> (\<forall>e \<in> set obj. snd e = ?g (fst e))
               \<and> (distinct (map p_name ?q)
                    \<and> (\<forall>p \<in> set (parameters operationSpec).
                          p_in p = ''query'' \<longrightarrow> \<not> array_index (p_name p))
                  \<longrightarrow> obj = map ?f ?q))"
  proof (rule impI)
    assume "\<exists>p \<in> set (parameters operationSpec). p_in p = ''query''"
    with q have "?q \<noteq> []" by simp
    then have "request_field (last (m_statements ?m)) ''queryParams'' = Some (Object ?obj)"
      by (simp only: field if_False)
    moreover have "distinct (map p_name ?q)
                    \<and> (\<forall>p \<in> set (parameters operationSpec).
                          p_in p = ''query'' \<longrightarrow> \<not> array_index (p_name p))
                  \<longrightarrow> ?obj = map ?f ?q"
      using k4 by (rule impI)
    ultimately show "\<exists>obj.
                 request_field (last (m_statements ?m)) ''queryParams'' = Some (Object obj)
               \<and> distinct (map fst obj)
               \<and> set (map fst obj) = set (map p_name ?q)
               \<and> (\<forall>e \<in> set obj. snd e = ?g (fst e))
               \<and> (distinct (map p_name ?q)
                    \<and> (\<forall>p \<in> set (parameters operationSpec).
                          p_in p = ''query'' \<longrightarrow> \<not> array_index (p_name p))
                  \<longrightarrow> obj = map ?f ?q)"
      using k1 k2 k3 by (intro exI conjI)
  qed
  from r ne 1 2 show ?thesis by (intro exI conjI)
qed

theorem queryParams_field_witness:
  "\<exists>project' r m.
     serviceFromPathSpecification spec_helpers ''/users/search'' ''post'' example_utils
       ''../models'' [(''post'', example_search)] ''out'' [] = (None, project')
   \<and> map_of [(''post'', example_search)] ''post'' = Some example_search
   \<and> (\<exists>p \<in> set (parameters example_search). p_in p = ''query'')
   \<and> distinct (map p_name (filter (\<lambda>p. p_in p = ''query'') (parameters example_search)))
   \<and> (\<forall>p \<in> set (parameters example_search). p_in p = ''query'' \<longrightarrow> \<not> array_index (p_name p))
   \<and> getSourceFile project' ''out/services/UserService.ts'' = Some (fst r)
   \<and> methods_at project' r = [m]
   \<and> request_field (last (m_statements m)) ''queryParams'' =
       Some (Object [(''limit'',
                      Text (''props['' @ [CHR 0x27] @ ''limit'' @ [CHR 0x27] @ '']''))])"
proof -
  let ?h = "(spec_helpers :: (string, string, string body_params option \<times> string return_type option) helpers)"
  let ?P = "snd (serviceFromPathSpecification spec_helpers ''/users/search'' ''post'' example_utils
       ''../models'' [(''post'', example_search)] ''out'' [])"
  have op: "map_of [(''post'', example_search)] ''post'' = Some example_search" by simp
  have q: "\<exists>p \<in> set (parameters example_search). p_in p = ''query''"
    by (simp add: example_search_def)
  have d: "distinct (map p_name (filter (\<lambda>p. p_in p = ''query'') (parameters example_search)))"
    by (simp add: example_search_def)
  have ai: "\<not> array_index ''limit''" by code_simp
  have n: "\<forall>p \<in> set (parameters example_search). p_in p = ''query'' \<longrightarrow> \<not> array_index (p_name p)"
    using ai by (simp add: example_search_def)
  from queryParams_field [OF search_processed op] obtain r m where
    g: "getSourceFile ?P (service_path ?h ''out'' example_search) = Some (fst r)"
    and ms: "methods_at ?P r = methods_at [] r @ [m]"
    and rest: "(\<exists>p \<in> set (parameters example_search). p_in p = ''query'') \<longrightarrow>
              (\<exists>obj.
                 request_field (last (m_statements m)) ''queryParams'' = Some (Object obj)
               \<and> distinct (map fst obj)
               \<and> set (map fst obj)
                   = set (map p_name (filter (\<lambda>p. p_in p = ''query'') (parameters example_search)))
               \<and> (\<forall>e \<in> set obj.
                     snd e = Text (''props['' @ [CHR 0x27] @ fst e @ [CHR 0x27] @ '']''))
               \<and> (distinct (map p_name
                               (filter (\<lambda>p. p_in p = ''query'') (parameters example_search)))
                    \<and> (\<forall>p \<in> set (parameters example_search).
                          p_in p = ''query'' \<longrightarrow> \<not> array_index (p_name p))
                  \<longrightarrow> obj =
                        map (\<lambda>p. (p_name p,
                                   Text (''props['' @ [CHR 0x27] @ p_name p @ [CHR 0x27] @ '']'')))
                          (filter (\<lambda>p. p_in p = ''query'') (parameters example_search))))"
    by (elim exE conjE) (rule that; assumption)
  from rest q d n obtain obj where
    f: "request_field (last (m_statements m)) ''queryParams'' = Some (Object obj)"
    and o: "obj = map (\<lambda>p. (p_name p,
                                   Text (''props['' @ [CHR 0x27] @ p_name p @ [CHR 0x27] @ '']'')))
                          (filter (\<lambda>p. p_in p = ''query'') (parameters example_search))"
    by blast
  have "obj = [(''limit'', Text (''props['' @ [CHR 0x27] @ ''limit'' @ [CHR 0x27] @ '']''))]"
    unfolding o by (simp add: example_search_def)
  with f have f': "request_field (last (m_statements m)) ''queryParams'' =
       Some (Object [(''limit'',
                      Text (''props['' @ [CHR 0x27] @ ''limit'' @ [CHR 0x27] @ '']''))])"
    by simp
  from g have g': "getSourceFile ?P ''out/services/UserService.ts'' = Some (fst r)"
    by (simp only: search_names)
  from ms have ms': "methods_at ?P r = [m]" by simp
  show ?thesis
    using search_processed op q d n g' ms' f' by (intro exI conjI)
qed

text \<open>
  C6, as the spec words it, fails. The operation \<open>UserController_list\<close> declares the
  query parameters \<open>b\<close> and \<open>1\<close>, in this order; it is processed, and the object
  in the field \<open>queryParams\<close> of its method has the entry of \<open>1\<close> before the entry
  of \<open>b\<close>, because \<open>1\<close> is an array index.
\<close>

theorem queryParams_order_counterexample:
  "fst (serviceFromPathSpecification spec_helpers ''/users'' ''get'' example_utils ''../models''
          [(''get'', example_indexed)] ''out'' []) = None
   \<and> map m_name
        (methods_at
           (snd (serviceFromPathSpecification spec_helpers ''/users'' ''get'' example_utils
                   ''../models'' [(''get'', example_indexed)] ''out'' []))
           (0, 0)) = [''list'']
   \<and> request_field
        (last (m_statements
           (hd (methods_at
                  (snd (serviceFromPathSpecification spec_helpers ''/users'' ''get''
                          example_utils ''../models'' [(''get'', example_indexed)] ''out'' []))
                  (0, 0)))))
        ''queryParams''
      = Some (Object
                [(''1'', Text (''props['' @ [CHR 0x27] @ ''1'' @ [CHR 0x27] @ '']'')),
                 (''b'', Text (''props['' @ [CHR 0x27] @ ''b'' @ [CHR 0x27] @ '']''))])
   \<and> queryParams_spec (parameters example_indexed)
      = Object
          [(''b'', Text (''props['' @ [CHR 0x27] @ ''b'' @ [CHR 0x27] @ '']'')),
           (''1'', Text (''props['' @ [CHR 0x27] @ ''1'' @ [CHR 0x27] @ '']''))]
   \<and> request_field
        (last (m_statements
           (hd (methods_at
                  (snd (serviceFromPathSpecification spec_helpers ''/users'' ''get''
                          example_utils ''../models'' [(''get'', example_indexed)] ''out'' []))
                  (0, 0)))))
        ''queryParams''
      \<noteq> Some (queryParams_spec (parameters example_indexed))"
  by code_simp

text \<open>
  C9. For every declared parameter whose location is neither \<open>path\<close> nor \<open>query\<close>,
  the type of \<open>props\<close> has a field for the parameter, and the statements of the method
  are the statements of the same operation without that parameter: the parameter is
  neither destructured nor passed in any field of the object given to \<open>adapter\<close>.
\<close>

theorem other_locations_dropped:
  assumes "serviceFromPathSpecification h rawPath method u models pathSpec rootDir project
             = (None, project')"
    and "map_of pathSpec method = Some operationSpec"
    and "p \<in> set (parameters operationSpec)"
    and "p_in p \<noteq> ''path''" and "p_in p \<noteq> ''query''"
  shows "\<exists>r m decl.
           getSourceFile project' (service_path h rootDir operationSpec) = Some (fst r)
         \<and> methods_at project' r = methods_at project r @ [m]
         \<and> m_parameters m = [decl]
         \<and> \<lparr>ps_name = p_name p, ps_type = sanitizeType (p_schema_type p),
             hasQuestionToken = (\<not> p_required p)\<rparr> \<in> set (objectType decl)
         \<and> m_statements m =
             method_statements h rawPath method
               (case extractResponseType h operationSpec of
                  Some r \<Rightarrow> openAPISpecTreeSpecWriter (rt_schema r)
                | None \<Rightarrow> literalWriter ''void'')
               (extractContentSchema h ''bodyArgs'' operationSpec)
               (groupBy p_in (removeAll p (parameters operationSpec)))"
proof -
  let ?m = "generated_method h rawPath method operationSpec"
  let ?decl = "\<lparr>pd_name = ''props'',
                  objectType =
                    (case extractContentSchema h ''bodyArgs'' operationSpec of
                       None \<Rightarrow> []
                     | Some b \<Rightarrow>
                         [\<lparr>ps_name = contentName b,
                           ps_type = openAPISpecTreeSpecWriter (bp_schema b),
                           hasQuestionToken = (\<not> bp_required b)\<rparr>])
                    @ map (\<lambda>p. \<lparr>ps_name = p_name p,
                                 ps_type = sanitizeType (p_schema_type p),
                                 hasQuestionToken = (\<not> p_required p)\<rparr>)
                        (parameters operationSpec)\<rparr>"
  from serviceFromPathSpecification_method_at [OF assms(1,2)] obtain r where
    r: "getSourceFile project' (service_path h rootDir operationSpec) = Some (fst r)"
    "methods_at project' r = methods_at project r @ [?m]"
    by blast
  from assms(3) have "parameters operationSpec \<noteq> []" by auto
  then have 1: "m_parameters ?m = [?decl]"
    by (simp add: generated_method_parameters)
  have 2: "\<lparr>ps_name = p_name p, ps_type = sanitizeType (p_schema_type p),
             hasQuestionToken = (\<not> p_required p)\<rparr> \<in> set (objectType ?decl)"
    using assms(3) by auto
  have 3: "m_statements ?m =
             method_statements h rawPath method
               (case extractResponseType h operationSpec of
                  Some r \<Rightarrow> openAPISpecTreeSpecWriter (rt_schema r)
                | None \<Rightarrow> literalWriter ''void'')
               (extractContentSchema h ''bodyArgs'' operationSpec)
               (groupBy p_in (removeAll p (parameters operationSpec)))"
    using assms(4,5)
    by (simp add: generated_method_def method_statements_explicit filter_removeAll_other)
  from r 1 2 3 show ?thesis by (intro exI conjI)
qed

theorem other_locations_dropped_witness:
  "\<exists>project' r m decl.
     serviceFromPathSpecification spec_helpers ''/users/search'' ''post'' example_utils
       ''../models'' [(''post'', example_search)] ''out'' [] = (None, project')
   \<and> map_of [(''post'', example_search)] ''post'' = Some example_search
   \<and> parameters example_search ! 1 \<in> set (parameters example_search)
   \<and> p_in (parameters example_search ! 1) = ''header''
   \<and> getSourceFile project' ''out/services/UserService.ts'' = Some (fst r)
   \<and> methods_at project' r = [m]
   \<and> m_parameters m = [decl]
   \<and> \<lparr>ps_name = ''traceId'', ps_type = sanitizeType ''string'',
       hasQuestionToken = True\<rparr> \<in> set (objectType decl)
   \<and> m_statements m =
        [destructWriter False ''this.configuration'' [''baseUrl'', ''adapter''],
         newLine,
         returnStatement
           \<lparr>callName = ''adapter'',
            parametricType = literalWriter ''void'',
            params =
              [Object
                 [(''url'', Text (CHR 0x60 # ''${baseUrl}/users/search'' @ [CHR 0x60])),
                  (''method'', Text ([CHR 0x27] @ ''POST'' @ [CHR 0x27])),
                  (''queryParams'',
                   Object [(''limit'',
                            Text (''props['' @ [CHR 0x27] @ ''limit'' @ [CHR 0x27] @ '']''))]),
                  (''bodyArgs'',
                   Text (''props['' @ [CHR 0x27] @ ''bodyArgs'' @ [CHR 0x27] @ '']''))]]\<rparr>]"
proof -
  let ?h = "(spec_helpers :: (string, string, string body_params option \<times> string return_type option) helpers)"
  let ?P = "snd (serviceFromPathSpecification spec_helpers ''/users/search'' ''post'' example_utils
       ''../models'' [(''post'', example_search)] ''out'' [])"
  let ?p = "parameters example_search ! 1"
  have op: "map_of [(''post'', example_search)] ''post'' = Some example_search" by simp
  have p: "?p \<in> set (parameters example_search)" "p_in ?p = ''header''"
    "p_in ?p \<noteq> ''path''" "p_in ?p \<noteq> ''query''"
    by (simp_all add: example_search_def)
  have pn: "p_name ?p = ''traceId''" "p_schema_type ?p = ''string''" "p_required ?p = False"
    by (simp_all add: example_search_def)
  have st: "method_statements ?h ''/users/search'' ''post''
               (case extractResponseType ?h example_search of
                  Some r \<Rightarrow> openAPISpecTreeSpecWriter (rt_schema r)
                | None \<Rightarrow> literalWriter ''void'')
               (extractContentSchema ?h ''bodyArgs'' example_search)
               (groupBy p_in (removeAll ?p (parameters example_search))) =
        [destructWriter False ''this.configuration'' [''baseUrl'', ''adapter''],
         newLine,
         returnStatement
           \<lparr>callName = ''adapter'',
            parametricType = literalWriter ''void'',
            params =
              [Object
                 [(''url'', Text (CHR 0x60 # ''${baseUrl}/users/search'' @ [CHR 0x60])),
                  (''method'', Text ([CHR 0x27] @ ''POST'' @ [CHR 0x27])),
                  (''queryParams'',
                   Object [(''limit'',
                            Text (''props['' @ [CHR 0x27] @ ''limit'' @ [CHR 0x27] @ '']''))]),
                  (''bodyArgs'',
                   Text (''props['' @ [CHR 0x27] @ ''bodyArgs'' @ [CHR 0x27] @ '']''))]]\<rparr>]"
    by code_simp
  from other_locations_dropped [OF search_processed op p(1,3,4)] obtain r m decl where
    g: "getSourceFile ?P ''out/services/UserService.ts'' = Some (fst r)"
    and ms: "methods_at ?P r = [m]"
    and m2: "m_parameters m = [decl]"
    and m3: "\<lparr>ps_name = ''traceId'', ps_type = sanitizeType ''string'',
              hasQuestionToken = True\<rparr> \<in> set (objectType decl)"
    and m4: "m_statements m =
        [destructWriter False ''this.configuration'' [''baseUrl'', ''adapter''],
         newLine,
         returnStatement
           \<lparr>callName = ''adapter'',
            parametricType = literalWriter ''void'',
            params =
              [Object
                 [(''url'', Text (CHR 0x60 # ''${baseUrl}/users/search'' @ [CHR 0x60])),
                  (''method'', Text ([CHR 0x27] @ ''POST'' @ [CHR 0x27])),
                  (''queryParams'',
                   Object [(''limit'',
                            Text (''props['' @ [CHR 0x27] @ ''limit'' @ [CHR 0x27] @ '']''))]),
                  (''bodyArgs'',
                   Text (''props['' @ [CHR 0x27] @ ''bodyArgs'' @ [CHR 0x27] @ '']''))]]\<rparr>]"
    unfolding search_names pn st methods_at_Nil append_Nil
    by (elim exE conjE) (rule that; simp)
  show ?thesis
    using search_processed op p(1,2) g ms m2 m3 m4 by (intro exI conjI)
qed

section \<open>The pass over the description\<close>








section \<open>The imports of a service file\<close>

lemma potentialImportsToInclude_explicit:
  "potentialImportsToInclude b r =
     (case Option.bind b bp_imports of None \<Rightarrow> [] | Some n \<Rightarrow> if n = [] then [] else [n])
     @ (case Option.bind r typeName of None \<Rightarrow> [] | Some n \<Rightarrow> if n = [] then [] else [n])"
  by (cases "Option.bind b bp_imports"; cases "Option.bind r typeName")
     (auto simp: potentialImportsToInclude_def falsy_string_def)

text \<open>
  C7. For every processed operation, the names to import are the body schema's
  \<open>imports\<close>, if it is there and not empty, and then the response schema's
  \<open>typeName\<close>, if it is there and not empty. \<open>includeOrCreateNamedImport\<close> is
  called if and only if there is at least one: with a name, the named imports of the service file are what the helper
  returns on the names and the imports the file had; with no name, they are unchanged,
  and the result of the call is the same whatever function stands for the helper. With
  the helper as the spec describes it, a file whose named imports have no entry twice
  keeps that, each registered name has exactly one entry, registering the same names again
  changes nothing, and so it is after a whole pass, however many operations name the
  same type.
\<close>

theorem imports_registered_once:
  assumes "serviceFromPathSpecification h rawPath verb u models pathSpec rootDir project
             = (None, project')"
    and "map_of pathSpec verb = Some operationSpec"
  shows "potentialImportsToInclude (extractContentSchema h ''bodyArgs'' operationSpec)
           (extractResponseType h operationSpec) =
           (case Option.bind (extractContentSchema h ''bodyArgs'' operationSpec) bp_imports of
              None \<Rightarrow> []
            | Some n \<Rightarrow> if n = [] then [] else [n])
           @ (case Option.bind (extractResponseType h operationSpec) typeName of
                None \<Rightarrow> []
              | Some n \<Rightarrow> if n = [] then [] else [n])
       \<and> (potentialImportsToInclude (extractContentSchema h ''bodyArgs'' operationSpec)
            (extractResponseType h operationSpec) \<noteq> []
          \<longleftrightarrow> (\<exists>n. n \<noteq> []
                 \<and> (Option.bind (extractContentSchema h ''bodyArgs'' operationSpec) bp_imports
                      = Some n
                    \<or> Option.bind (extractResponseType h operationSpec) typeName = Some n)))
       \<and> file_imports project' (service_path h rootDir operationSpec) =
           (if potentialImportsToInclude (extractContentSchema h ''bodyArgs'' operationSpec)
                 (extractResponseType h operationSpec) = []
            then file_imports project (service_path h rootDir operationSpec)
            else includeOrCreateNamedImport h models
                   (potentialImportsToInclude (extractContentSchema h ''bodyArgs'' operationSpec)
                      (extractResponseType h operationSpec))
                   (file_imports project (service_path h rootDir operationSpec)))
       \<and> (potentialImportsToInclude (extractContentSchema h ''bodyArgs'' operationSpec)
             (extractResponseType h operationSpec) = []
           \<longrightarrow> (\<forall>g. serviceFromPathSpecification (h\<lparr>includeOrCreateNamedImport := g\<rparr>) rawPath
                      verb u models pathSpec rootDir project = (None, project')))
       \<and> (includeOrCreateNamedImport h = includeOrCreateNamedImport_spec
             \<and> distinct (file_imports project (service_path h rootDir operationSpec))
           \<longrightarrow> distinct (file_imports project' (service_path h rootDir operationSpec))
             \<and> (\<forall>n \<in> set (potentialImportsToInclude
                              (extractContentSchema h ''bodyArgs'' operationSpec)
                              (extractResponseType h operationSpec)).
                   length (filter (\<lambda>e. e = (models, n))
                             (file_imports project' (service_path h rootDir operationSpec))) = 1)
             \<and> includeOrCreateNamedImport_spec models
                   (potentialImportsToInclude (extractContentSchema h ''bodyArgs'' operationSpec)
                      (extractResponseType h operationSpec))
                   (file_imports project' (service_path h rootDir operationSpec))
                 = file_imports project' (service_path h rootDir operationSpec))
       \<and> (\<forall>spec_paths p p'.
             includeOrCreateNamedImport h = includeOrCreateNamedImport_spec
             \<and> (\<forall>F. distinct (file_imports p F))
             \<and> generateServices h rootDir p models u spec_paths = (None, p')
           \<longrightarrow> (\<forall>F. distinct (file_imports p' F)))"
proof -
  let ?names = "potentialImportsToInclude (extractContentSchema h ''bodyArgs'' operationSpec)
                  (extractResponseType h operationSpec)"
  let ?F0 = "service_path h rootDir operationSpec"
  note imp = serviceFromPathSpecification_imports [OF assms, of ?F0]
  have 0: "?names =
           (case Option.bind (extractContentSchema h ''bodyArgs'' operationSpec) bp_imports of
              None \<Rightarrow> []
            | Some n \<Rightarrow> if n = [] then [] else [n])
           @ (case Option.bind (extractResponseType h operationSpec) typeName of
                None \<Rightarrow> []
              | Some n \<Rightarrow> if n = [] then [] else [n])"
    by (rule potentialImportsToInclude_explicit)
  have 1: "?names \<noteq> [] \<longleftrightarrow> (\<exists>n. n \<noteq> []
                 \<and> (Option.bind (extractContentSchema h ''bodyArgs'' operationSpec) bp_imports
                      = Some n
                    \<or> Option.bind (extractResponseType h operationSpec) typeName = Some n))"
    by (rule potentialImportsToInclude_empty)
  have 2: "file_imports project' ?F0 =
           (if ?names = [] then file_imports project ?F0
            else includeOrCreateNamedImport h models ?names (file_imports project ?F0))"
    using imp by simp
  have 3: "serviceFromPathSpecification (h\<lparr>includeOrCreateNamedImport := g\<rparr>) rawPath
             verb u models pathSpec rootDir project = (None, project')"
    if "?names = []" for g
    using serviceFromPathSpecification_without_imports [OF that assms(2)] assms(1) by simp
  have 4: "distinct (file_imports project' ?F0)
      \<and> (\<forall>n \<in> set ?names.
            length (filter (\<lambda>e. e = (models, n)) (file_imports project' ?F0)) = 1)
      \<and> includeOrCreateNamedImport_spec models ?names (file_imports project' ?F0)
          = file_imports project' ?F0"
    if spec: "includeOrCreateNamedImport h = includeOrCreateNamedImport_spec"
      and d: "distinct (file_imports project ?F0)"
  proof (cases "?names = []")
    case True
    with 2 d show ?thesis by (simp add: includeOrCreateNamedImport_spec_def)
  next
    case False
    with 2 spec have eq: "file_imports project' ?F0 =
        includeOrCreateNamedImport_spec models ?names (file_imports project ?F0)" by simp
    have dist: "distinct (file_imports project' ?F0)"
      unfolding eq using d by (rule includeOrCreateNamedImport_spec_distinct)
    have "length (filter (\<lambda>e. e = (models, n)) (file_imports project' ?F0)) = 1"
      if "n \<in> set ?names" for n
      using dist
    proof (rule distinct_one_entry)
      show "(models, n) \<in> set (file_imports project' ?F0)"
        unfolding eq using that by (simp add: includeOrCreateNamedImport_spec_set)
    qed
    moreover have "includeOrCreateNamedImport_spec models ?names (file_imports project' ?F0)
        = file_imports project' ?F0"
      unfolding eq by (rule includeOrCreateNamedImport_spec_idem)
    ultimately show ?thesis using dist by blast
  qed
  have 5: "\<forall>F. distinct (file_imports p' F)"
    if "includeOrCreateNamedImport h = includeOrCreateNamedImport_spec"
      and "\<forall>F. distinct (file_imports p F)"
      and "generateServices h rootDir p models u spec_paths = (None, p')"
    for spec_paths p p'
    using forEach_imports_distinct [OF generateServices_operations [OF that(3)] that(1)] that(2)
    by blast
  show ?thesis
  proof (intro conjI allI impI)
    fix g assume "?names = []"
    then show "serviceFromPathSpecification (h\<lparr>includeOrCreateNamedImport := g\<rparr>) rawPath
             verb u models pathSpec rootDir project = (None, project')" by (rule 3)
  next
    fix spec_paths p p' F
    assume "includeOrCreateNamedImport h = includeOrCreateNamedImport_spec
             \<and> (\<forall>F. distinct (file_imports p F))
             \<and> generateServices h rootDir p models u spec_paths = (None, p')"
    then show "distinct (file_imports p' F)" using 5 by blast
  qed (use 0 1 2 4 in \<open>simp_all\<close>)
qed

theorem imports_registered_once_witness:
  "\<exists>P P2 P3.
     serviceFromPathSpecification spec_helpers ''/users'' ''post'' example_utils
       ''../models'' [(''post'', example_create)] ''out'' [] = (None, P)
   \<and> serviceFromPathSpecification spec_helpers ''/users'' ''post'' example_utils
       ''../models'' [(''post'', example_create)] ''out'' P = (None, P2)
   \<and> potentialImportsToInclude (extractContentSchema spec_helpers ''bodyArgs'' example_create)
       (extractResponseType spec_helpers example_create) = [''NewUser'', ''User'']
   \<and> file_imports P ''out/services/UserService.ts''
       = [(''../models'', ''NewUser''), (''../models'', ''User'')]
   \<and> file_imports P2 ''out/services/UserService.ts''
       = [(''../models'', ''NewUser''), (''../models'', ''User'')]
   \<and> length (filter (\<lambda>e. e = (''../models'', ''User''))
               (file_imports P2 ''out/services/UserService.ts'')) = 1
   \<and> serviceFromPathSpecification spec_helpers ''/ping'' ''get'' example_utils
       ''../models'' [(''get'', example_operation\<lparr>op_content := (None, None)\<rparr>)] ''out'' []
       = (None, P3)
   \<and> potentialImportsToInclude
       (extractContentSchema spec_helpers ''bodyArgs''
          (example_operation\<lparr>op_content := (None, None)\<rparr>))
       (extractResponseType spec_helpers (example_operation\<lparr>op_content := (None, None)\<rparr>)) = []
   \<and> serviceFromPathSpecification
       (spec_helpers\<lparr>includeOrCreateNamedImport := \<lambda>m ns imps. (m, ''never'') # imps\<rparr>)
       ''/ping'' ''get'' example_utils ''../models''
       [(''get'', example_operation\<lparr>op_content := (None, None)\<rparr>)] ''out'' [] = (None, P3)
   \<and> (\<forall>F. distinct
          (file_imports
             (snd (generateServices spec_helpers ''out'' [] ''../models'' example_utils
                     [(''/users/{id}'', [(''get'', example_operation)]),
                      (''/users/search'', [(''post'', example_search)])]))
             F))"
proof -
  let ?h = "(spec_helpers :: (string, string, string body_params option \<times> string return_type option) helpers)"
  let ?ps = "[(''post'', example_create)]"
  let ?ping = "example_operation\<lparr>op_content := (None, None)\<rparr>"
  let ?F = "''out/services/UserService.ts''"
  let ?spec = "[(''/users/{id}'', [(''get'', example_operation)]),
                (''/users/search'', [(''post'', example_search)])]"
  let ?P = "snd (serviceFromPathSpecification ?h ''/users'' ''post'' example_utils
       ''../models'' ?ps ''out'' [])"
  let ?P2 = "snd (serviceFromPathSpecification ?h ''/users'' ''post'' example_utils
       ''../models'' ?ps ''out'' ?P)"
  let ?P3 = "snd (serviceFromPathSpecification ?h ''/ping'' ''get'' example_utils
       ''../models'' [(''get'', ?ping)] ''out'' [])"
  have op: "map_of ?ps ''post'' = Some example_create"
    and op3: "map_of [(''get'', ?ping)] ''get'' = Some ?ping" by simp_all
  have "fst (serviceFromPathSpecification ?h ''/users'' ''post'' example_utils
       ''../models'' ?ps ''out'' []) = None"
    by code_simp
  then have p1: "serviceFromPathSpecification ?h ''/users'' ''post'' example_utils
       ''../models'' ?ps ''out'' [] = (None, ?P)"
    by (simp add: prod_eq_iff)
  have "fst (serviceFromPathSpecification ?h ''/users'' ''post'' example_utils
       ''../models'' ?ps ''out'' ?P) = None"
    by code_simp
  then have p2: "serviceFromPathSpecification ?h ''/users'' ''post'' example_utils
       ''../models'' ?ps ''out'' ?P = (None, ?P2)"
    by (simp add: prod_eq_iff)
  have "fst (serviceFromPathSpecification ?h ''/ping'' ''get'' example_utils
       ''../models'' [(''get'', ?ping)] ''out'' []) = None"
    by code_simp
  then have p3: "serviceFromPathSpecification ?h ''/ping'' ''get'' example_utils
       ''../models'' [(''get'', ?ping)] ''out'' [] = (None, ?P3)"
    by (simp add: prod_eq_iff)
  have F: "service_path ?h ''out'' example_create = ?F"
    by (simp add: service_path_def service_name_def example_create_def
        dataFromOperationId_def spec_helpers_def path_join_posix_def normalize_def)
  have inc: "includeOrCreateNamedImport ?h = includeOrCreateNamedImport_spec"
    by (simp add: spec_helpers_def)
  have old: "file_imports ([] :: (string, string) project) ?F = []"
    by (simp add: file_imports_def getSourceFile_def)
  note t1 = imports_registered_once [OF p1 op, unfolded F]
  from t1 have names: "potentialImportsToInclude (extractContentSchema ?h ''bodyArgs'' example_create)
       (extractResponseType ?h example_create) = [''NewUser'', ''User'']"
    by (simp add: spec_helpers_def extractContentSchema_spec_def
        extractResponseType_spec_def example_create_def)
  have none: "potentialImportsToInclude (extractContentSchema ?h ''bodyArgs'' ?ping)
       (extractResponseType ?h ?ping) = []"
    by (simp add: potentialImportsToInclude_def spec_helpers_def extractContentSchema_spec_def
        extractResponseType_spec_def example_operation_def falsy_string_def)
  from t1 [THEN conjunct2, THEN conjunct2, THEN conjunct1]
  have i1: "file_imports ?P ?F = [(''../models'', ''NewUser''), (''../models'', ''User'')]"
    by (simp add: names inc old includeOrCreateNamedImport_spec_def)
  note t2 = imports_registered_once [OF p2 op, unfolded F]
  from t2 [THEN conjunct2, THEN conjunct2, THEN conjunct1]
  have i2: "file_imports ?P2 ?F = [(''../models'', ''NewUser''), (''../models'', ''User'')]"
    by (simp add: names inc i1 includeOrCreateNamedImport_spec_def)
  have hyp4: "includeOrCreateNamedImport ?h = includeOrCreateNamedImport_spec
      \<and> distinct (file_imports ?P ?F)"
    by (simp add: inc i1)
  note t4 = t2 [THEN conjunct2, THEN conjunct2, THEN conjunct2, THEN conjunct2, THEN conjunct1,
      rule_format, OF hyp4, THEN conjunct2, THEN conjunct1, rule_format, of "''User''"]
  have one: "length (filter (\<lambda>e. e = (''../models'', ''User''))
      (file_imports ?P2 ?F)) = 1"
    by (rule t4) (simp add: names)
  note t3 = imports_registered_once [OF p3 op3, THEN conjunct2, THEN conjunct2, THEN conjunct2,
      THEN conjunct1, rule_format, OF none]
  have pass: "generateServices ?h ''out'' [] ''../models'' example_utils ?spec
      = (None, snd (generateServices ?h ''out'' [] ''../models'' example_utils ?spec))"
    using example_pass2 by (simp add: prod_eq_iff)
  have empty: "\<forall>F. distinct (file_imports ([] :: (string, string) project) F)"
    by (simp add: file_imports_def getSourceFile_def)
  from imports_registered_once [OF p1 op, THEN conjunct2, THEN conjunct2, THEN conjunct2,
      THEN conjunct2, THEN conjunct2, rule_format, of "[]" ?spec, OF conjI [OF inc conjI [OF empty pass]]]
  have all: "\<forall>F. distinct (file_imports
      (snd (generateServices ?h ''out'' [] ''../models'' example_utils ?spec)) F)"
    by blast
  show ?thesis
    using p1 p2 names i1 i2 one p3 none t3 all by (intro exI conjI)
qed

end
